theory Spec2Isabelle
  imports Complex_Main "HOL-Library.Sublist" "HOL-Library.AList"
begin

section \<open>Types (types/index.ts)\<close>

text \<open>
  JavaScript numbers that hold clock readings (\<open>Date.now()\<close>) are integers; counters
  that start at 0 and are only incremented, and the retry budget and the breaker
  threshold, are naturals; the delays and the multiplier of a retry strategy are reals,
  each standing for the double nearest to it, and the arithmetic on them is the
  double-precision arithmetic of the section on numbers.  An \<open>Error\<close> is represented by
  its message.
\<close>

datatype ErrorCode =
    TIMEOUT | NETWORK_ERROR | CLOUDFLARE_BLOCK | SELECTOR_NOT_FOUND | INVALID_PARAMS
  | AUTHENTICATION_FAILED | RATE_LIMIT_EXCEEDED | COMMAND_FAILED | ELEMENT_NOT_FOUND
  | ELEMENT_NOT_VISIBLE | ELEMENT_NOT_INTERACTABLE | NAVIGATION_FAILED | PERMISSION_DENIED
  | INVALID_URL | TAB_NOT_FOUND | STORAGE_ERROR | COOKIE_ERROR | SCRIPT_ERROR | UNKNOWN

text \<open>The category \<open>TIMEOUT\<close> is written \<open>TIMEOUT_CATEGORY\<close>: the error code has the name.\<close>

datatype ErrorCategory =
    NETWORK | SELECTOR | PERMISSION | TIMEOUT_CATEGORY | VALIDATION | SYSTEM

record RetryStrategy =
  maxRetries :: nat
  baseDelay :: real
  maxDelay :: real
  backoffMultiplier :: real
  retryableErrors :: "ErrorCode list"

text \<open>The fields \<open>params\<close> and \<open>timestamp\<close> of an error context, which nothing reads, are
  left out.\<close>

record ErrorContext =
  ctxCommand :: string
  ctxRetryCount :: nat
  category :: ErrorCategory
  recoverable :: bool
  ctxFallbackStrategies :: "string list"

section \<open>Numbers\<close>

text \<open>
  A JavaScript number is an IEEE-754 double.  A finite double is written as the real it
  denotes, and an operation of the source returns the double nearest to the exact result,
  a tie going to the neighbour with the even significand.  \<open>round64\<close> is this rounding:
  \<open>binade x\<close> is the exponent \<open>e\<close> with \<open>2 ^ e \<le> \<bar>x\<bar> < 2 ^ (e + 1)\<close>, not below \<open>- 1022\<close>
  where the subnormal numbers start, \<open>ulp x = 2 ^ (e - 52)\<close> is the distance between
  neighbouring doubles there, and \<open>x\<close> goes to the nearest multiple of \<open>ulp x\<close>.
  \<open>Infinity\<close> and \<open>NaN\<close> are not numbers of the model: it follows the source as long as no
  result lies beyond the largest double.
\<close>

definition binade :: "real \<Rightarrow> int" where
  "binade x = max \<lfloor>log 2 \<bar>x\<bar>\<rfloor> (- 1022)"

definition ulp :: "real \<Rightarrow> real" where
  "ulp x = 2 powr real_of_int (binade x - 52)"

definition roundHalfEven :: "real \<Rightarrow> int" where
  "roundHalfEven y =
     (let f = \<lfloor>y\<rfloor> in
        if y - real_of_int f < 1 / 2 then f
        else if 1 / 2 < y - real_of_int f then f + 1
        else if even f then f else f + 1)"

definition round64 :: "real \<Rightarrow> real" where
  "round64 x = (if x = 0 then 0 else real_of_int (roundHalfEven (x / ulp x)) * ulp x)"

text \<open>
  The operators \<open>*\<close> and \<open>+\<close> of the source.  An operand that is not a double, such as
  the literal \<open>0.1\<close>, stands for the double nearest to it.
\<close>

definition times64 :: "real \<Rightarrow> real \<Rightarrow> real" where
  "times64 a b = round64 (round64 a * round64 b)"

definition plus64 :: "real \<Rightarrow> real \<Rightarrow> real" where
  "plus64 a b = round64 (round64 a + round64 b)"

section \<open>Strings\<close>

text \<open>\<open>String.prototype.includes\<close>: the pattern occurs as a contiguous piece of the text.\<close>

fun str_includes :: "string \<Rightarrow> string \<Rightarrow> bool" where
  "str_includes [] pat = (pat = [])"
| "str_includes (c # cs) pat = (prefix pat (c # cs) \<or> str_includes cs pat)"

text \<open>What \<open>String.prototype.toLowerCase\<close> does on ASCII text: the letters A to Z are
  mapped, every other character is kept.\<close>

definition lowerChar :: "char \<Rightarrow> char" where
  "lowerChar c =
     (case map_of (zip ''ABCDEFGHIJKLMNOPQRSTUVWXYZ'' ''abcdefghijklmnopqrstuvwxyz'') c of
        Some l \<Rightarrow> l
      | None \<Rightarrow> c)"

definition asciiLowerCase :: "string \<Rightarrow> string" where
  "asciiLowerCase s = map lowerChar s"

text \<open>\<open>String.prototype.replace\<close> with a string pattern: only the first occurrence is
  replaced.\<close>

fun replaceFirst :: "string \<Rightarrow> string \<Rightarrow> string \<Rightarrow> string" where
  "replaceFirst pat rep [] = (if pat = [] then rep else [])"
| "replaceFirst pat rep (c # cs) =
     (if prefix pat (c # cs) then rep @ drop (length pat) (c # cs)
      else c # replaceFirst pat rep cs)"

section \<open>Engine\<close>

text \<open>
  Two builtins are taken from the JavaScript engine instead of being defined:
  \<open>Math.pow\<close>, whose result the language leaves implementation-approximated, here for an
  exponent that is a counter, and \<open>String.prototype.toLowerCase\<close>, which follows the case
  mappings of Unicode.  What is proved for every engine holds whatever the two return.
  \<open>referenceEngine\<close> runs the examples: its \<open>Math.pow\<close> is the correctly rounded power,
  and its \<open>toLowerCase\<close> is \<open>asciiLowerCase\<close>.
\<close>

record Engine =
  mathPow :: "real \<Rightarrow> nat \<Rightarrow> real"
  toLowerCase :: "string \<Rightarrow> string"

definition referenceEngine :: Engine where
  "referenceEngine =
     \<lparr> mathPow = (\<lambda>x n. round64 (x ^ n)), toLowerCase = asciiLowerCase \<rparr>"

section \<open>Error handler (error/error-handler.ts)\<close>

record ErrorHandlerConfig =
  defaultRetryStrategy :: RetryStrategy
  commandRetryStrategies :: "string \<rightharpoonup> RetryStrategy"
  fallbackStrategies :: "ErrorCode \<rightharpoonup> string list"

fun categorizeError :: "ErrorCode \<Rightarrow> ErrorCategory" where
  "categorizeError NETWORK_ERROR = NETWORK"
| "categorizeError CLOUDFLARE_BLOCK = NETWORK"
| "categorizeError NAVIGATION_FAILED = NETWORK"
| "categorizeError SELECTOR_NOT_FOUND = SELECTOR"
| "categorizeError ELEMENT_NOT_FOUND = SELECTOR"
| "categorizeError ELEMENT_NOT_VISIBLE = SELECTOR"
| "categorizeError ELEMENT_NOT_INTERACTABLE = SELECTOR"
| "categorizeError PERMISSION_DENIED = PERMISSION"
| "categorizeError TAB_NOT_FOUND = PERMISSION"
| "categorizeError TIMEOUT = TIMEOUT_CATEGORY"
| "categorizeError INVALID_PARAMS = VALIDATION"
| "categorizeError INVALID_URL = VALIDATION"
| "categorizeError STORAGE_ERROR = SYSTEM"
| "categorizeError COOKIE_ERROR = SYSTEM"
| "categorizeError SCRIPT_ERROR = SYSTEM"
| "categorizeError UNKNOWN = SYSTEM"
| "categorizeError _ = SYSTEM"

definition recoverableErrors :: "ErrorCode list" where
  "recoverableErrors =
     [TIMEOUT, NETWORK_ERROR, SELECTOR_NOT_FOUND, ELEMENT_NOT_FOUND, ELEMENT_NOT_VISIBLE,
      ELEMENT_NOT_INTERACTABLE, NAVIGATION_FAILED, CLOUDFLARE_BLOCK]"

definition isRecoverable :: "ErrorCode \<Rightarrow> bool" where
  "isRecoverable errorCode = (errorCode \<in> set recoverableErrors)"

definition getRetryStrategy :: "ErrorHandlerConfig \<Rightarrow> string \<Rightarrow> RetryStrategy" where
  "getRetryStrategy config command =
     (case commandRetryStrategies config command of
        Some strategy \<Rightarrow> strategy
      | None \<Rightarrow> defaultRetryStrategy config)"

text \<open>
  \<open>calculateRetryDelay\<close>.  The last argument is the value \<open>Math.random()\<close> returns, a
  double \<open>r\<close> with \<open>0 \<le> r < 1\<close>.  \<open>preJitterDelay\<close> is the local \<open>delay\<close> of the source.
  \<open>Math.min\<close> and \<open>Math.floor\<close> are exact on doubles.
\<close>

definition preJitterDelay :: "Engine \<Rightarrow> RetryStrategy \<Rightarrow> nat \<Rightarrow> real" where
  "preJitterDelay engine strategy retryCount =
     min (times64 (baseDelay strategy)
            (mathPow engine (round64 (backoffMultiplier strategy)) retryCount))
         (round64 (maxDelay strategy))"

definition calculateRetryDelay :: "Engine \<Rightarrow> RetryStrategy \<Rightarrow> nat \<Rightarrow> real \<Rightarrow> int" where
  "calculateRetryDelay engine strategy retryCount random =
     (let delay = preJitterDelay engine strategy retryCount;
          jitter = times64 (times64 random (1 / 10)) delay
      in \<lfloor>plus64 delay jitter\<rfloor>)"

definition shouldRetry :: "ErrorCode \<Rightarrow> nat \<Rightarrow> RetryStrategy \<Rightarrow> bool" where
  "shouldRetry errorCode retryCount strategy =
     (if retryCount \<ge> maxRetries strategy then False
      else errorCode \<in> set (retryableErrors strategy))"

definition getFallbackStrategies :: "ErrorHandlerConfig \<Rightarrow> ErrorCode \<Rightarrow> string list" where
  "getFallbackStrategies config errorCode =
     (case fallbackStrategies config errorCode of Some l \<Rightarrow> l | None \<Rightarrow> [])"

definition createErrorContext ::
  "ErrorHandlerConfig \<Rightarrow> string \<Rightarrow> ErrorCode \<Rightarrow> nat \<Rightarrow> ErrorContext" where
  "createErrorContext config command errorCode retryCount =
     \<lparr> ctxCommand = command,
       ctxRetryCount = retryCount,
       category = categorizeError errorCode,
       recoverable = isRecoverable errorCode,
       ctxFallbackStrategies = getFallbackStrategies config errorCode \<rparr>"

definition extractErrorCode :: "Engine \<Rightarrow> string \<Rightarrow> ErrorCode" where
  "extractErrorCode engine errorMessage =
     (let message = toLowerCase engine errorMessage in
      if str_includes message ''timeout'' then TIMEOUT
      else if str_includes message ''network'' then NETWORK_ERROR
      else if str_includes message ''cloudflare'' then CLOUDFLARE_BLOCK
      else if str_includes message ''selector'' \<or> str_includes message ''not found''
        then SELECTOR_NOT_FOUND
      else if str_includes message ''element not visible'' then ELEMENT_NOT_VISIBLE
      else if str_includes message ''element not interactable'' then ELEMENT_NOT_INTERACTABLE
      else if str_includes message ''navigation'' then NAVIGATION_FAILED
      else if str_includes message ''permission'' then PERMISSION_DENIED
      else if str_includes message ''invalid url'' then INVALID_URL
      else if str_includes message ''tab not found'' then TAB_NOT_FOUND
      else if str_includes message ''storage'' then STORAGE_ERROR
      else if str_includes message ''cookie'' then COOKIE_ERROR
      else if str_includes message ''script'' then SCRIPT_ERROR
      else UNKNOWN)"

record HandleErrorResult =
  doRetry :: bool
  delay :: "int option"
  hintStrategies :: "string list"

text \<open>
  \<open>handleError\<close> returns \<open>{shouldRetry, delay?, fallbackStrategies}\<close>; the field
  \<open>shouldRetry\<close> is \<open>doRetry\<close> here and \<open>fallbackStrategies\<close> is \<open>hintStrategies\<close>.  The last
  argument is the \<open>Math.random()\<close> draw that \<open>calculateRetryDelay\<close> consumes when the
  error is retried.
\<close>

definition handleError ::
  "Engine \<Rightarrow> ErrorHandlerConfig \<Rightarrow> string \<Rightarrow> string \<Rightarrow> nat \<Rightarrow> real
     \<Rightarrow> HandleErrorResult" where
  "handleError engine config errorMessage command retryCount random =
     (let errorCode = extractErrorCode engine errorMessage;
          strategy = getRetryStrategy config command;
          context = createErrorContext config command errorCode retryCount
      in if shouldRetry errorCode retryCount strategy
         then \<lparr> doRetry = True,
                delay = Some (calculateRetryDelay engine strategy retryCount random),
                hintStrategies = ctxFallbackStrategies context \<rparr>
         else \<lparr> doRetry = False, delay = None,
                hintStrategies = ctxFallbackStrategies context \<rparr>)"

definition defaultRetryableErrors :: "ErrorCode list" where
  "defaultRetryableErrors =
     [TIMEOUT, NETWORK_ERROR, SELECTOR_NOT_FOUND, ELEMENT_NOT_FOUND, ELEMENT_NOT_VISIBLE,
      ELEMENT_NOT_INTERACTABLE, NAVIGATION_FAILED, CLOUDFLARE_BLOCK]"

definition standardRetryStrategy :: RetryStrategy where
  "standardRetryStrategy =
     \<lparr> maxRetries = 3, baseDelay = 1000, maxDelay = 10000, backoffMultiplier = 2,
       retryableErrors = defaultRetryableErrors \<rparr>"


definition clickRetryStrategy :: RetryStrategy where
  "clickRetryStrategy =
     \<lparr> maxRetries = 3, baseDelay = 500, maxDelay = 3000, backoffMultiplier = 3 / 2,
       retryableErrors = [SELECTOR_NOT_FOUND, ELEMENT_NOT_FOUND, ELEMENT_NOT_VISIBLE,
                          ELEMENT_NOT_INTERACTABLE] \<rparr>"



section \<open>Retry manager (error/retry-manager.ts)\<close>

datatype BreakerState = CLOSED | OPEN | HALF_OPEN

record Breaker =
  failures :: nat
  lastFailureTime :: int
  state :: BreakerState

record RetryManagerConfig =
  errorHandler :: ErrorHandlerConfig
  circuitBreakerThreshold :: nat
  circuitBreakerTimeout :: int

text \<open>
  The private map \<open>circuitBreakerState\<close> is passed in and returned.  The entries of the
  map are objects that the source mutates in place; here the entry is replaced.
\<close>

type_synonym BreakerTable = "string \<rightharpoonup> Breaker"

text \<open>\<open>isCircuitBreakerOpen\<close> at clock reading \<open>now\<close>: the answer and the table it leaves.\<close>

definition isCircuitBreakerOpen ::
  "RetryManagerConfig \<Rightarrow> int \<Rightarrow> string \<Rightarrow> BreakerTable \<Rightarrow> bool \<times> BreakerTable" where
  "isCircuitBreakerOpen config now key table =
     (case table key of
        None \<Rightarrow> (False, table)
      | Some st \<Rightarrow>
          if state st = OPEN then
            if now - lastFailureTime st > circuitBreakerTimeout config
            then (False, table(key \<mapsto> st\<lparr>state := HALF_OPEN\<rparr>))
            else (True, table)
          else (False, table))"

definition recordFailure ::
  "RetryManagerConfig \<Rightarrow> int \<Rightarrow> string \<Rightarrow> BreakerTable \<Rightarrow> BreakerTable" where
  "recordFailure config now key table =
     (let st0 = (case table key of
                   Some st \<Rightarrow> st
                 | None \<Rightarrow> \<lparr> failures = 0, lastFailureTime = 0, state = CLOSED \<rparr>);
          st1 = st0\<lparr> failures := failures st0 + 1, lastFailureTime := now \<rparr>;
          st2 = (if failures st1 \<ge> circuitBreakerThreshold config
                 then st1\<lparr> state := OPEN \<rparr> else st1)
      in table(key \<mapsto> st2))"

definition resetCircuitBreaker :: "string \<Rightarrow> BreakerTable \<Rightarrow> BreakerTable" where
  "resetCircuitBreaker key table =
     (case table key of
        Some st \<Rightarrow> table(key \<mapsto> st\<lparr> failures := 0, state := CLOSED \<rparr>)
      | None \<Rightarrow> table)"

definition getCircuitBreakerStatus :: "string \<Rightarrow> BreakerTable \<Rightarrow> Breaker option" where
  "getCircuitBreakerStatus key table = table key"

definition resetAllCircuitBreakers :: "BreakerTable \<Rightarrow> BreakerTable" where
  "resetAllCircuitBreakers table = Map.empty"

text \<open>
  One run of the \<open>executor\<close> callback: how its promise settles (\<open>Inl\<close> the message of the
  error it rejects with, \<open>Inr\<close> the value it resolves to), the reading of \<open>Date.now()\<close>
  when the rejection is handled, and the \<open>Math.random()\<close> draw used for the jitter.
  The callback is a function of the 0-based number of the run.
\<close>

record 'a Attempt =
  outcome :: "string + 'a"
  finishedAt :: int
  randomDraw :: real

text \<open>
  What a call of \<open>executeWithRetry\<close> leaves: the value returned or the message of the
  error thrown, how often the executor was invoked, the delays slept, and the table.
\<close>

record 'a Execution =
  result :: "string + 'a"
  calls :: nat
  slept :: "int list"
  breakers :: BreakerTable

definition sleepFor :: "int option \<Rightarrow> int list" where
  "sleepFor d = (case d of Some ms \<Rightarrow> (if ms \<noteq> 0 then [ms] else []) | None \<Rightarrow> [])"

text \<open>The \<open>while (true)\<close> loop of \<open>executeWithRetry\<close>, from the state \<open>retryCount\<close>.\<close>

function retryLoop ::
  "Engine \<Rightarrow> RetryManagerConfig \<Rightarrow> string \<Rightarrow> string \<Rightarrow> (nat \<Rightarrow> 'a Attempt) \<Rightarrow> nat \<Rightarrow> int list
     \<Rightarrow> BreakerTable \<Rightarrow> 'a Execution" where
  "retryLoop engine config command key executor retryCount naps table =
     (case outcome (executor retryCount) of
        Inr v \<Rightarrow>
          \<lparr> result = Inr v, calls = Suc retryCount, slept = naps,
            breakers = resetCircuitBreaker key table \<rparr>
      | Inl lastError \<Rightarrow>
          if \<not> doRetry (handleError engine (errorHandler config) lastError command retryCount
                           (randomDraw (executor retryCount)))
          then \<lparr> result = Inl lastError, calls = Suc retryCount, slept = naps,
                 breakers = recordFailure config (finishedAt (executor retryCount)) key table \<rparr>
          else retryLoop engine config command key executor (Suc retryCount)
                 (naps @ sleepFor (delay (handleError engine (errorHandler config) lastError command
                                     retryCount (randomDraw (executor retryCount)))))
                 table)"
  by pat_completeness auto

termination retryLoop
proof (relation "measure (\<lambda>(engine, config, command, key, executor, retryCount, naps, table).
          maxRetries (getRetryStrategy (errorHandler config) command) - retryCount)")
  show "wf (measure (\<lambda>(engine, config, command, key, executor, retryCount, naps, table).
          maxRetries (getRetryStrategy (errorHandler config) command) - retryCount))"
    by simp
next
  fix engine :: Engine and config :: RetryManagerConfig and command key :: string
    and executor :: "nat \<Rightarrow> 'a Attempt" and retryCount :: nat and naps :: "int list"
    and table :: BreakerTable and lastError :: string
  assume "\<not> \<not> doRetry (handleError engine (errorHandler config) lastError command retryCount
                         (randomDraw (executor retryCount)))"
  then have "retryCount < maxRetries (getRetryStrategy (errorHandler config) command)"
    by (simp add: handleError_def Let_def shouldRetry_def split: if_splits)
  then show "((engine, config, command, key, executor, Suc retryCount,
               naps @ sleepFor (delay (handleError engine (errorHandler config) lastError command
                                   retryCount (randomDraw (executor retryCount)))), table),
              (engine, config, command, key, executor, retryCount, naps, table))
             \<in> measure (\<lambda>(engine, config, command, key, executor, retryCount, naps, table).
                  maxRetries (getRetryStrategy (errorHandler config) command) - retryCount)"
    by simp
qed

text \<open>
  \<open>executeWithRetry(command, params, executor)\<close>.  \<open>params\<close> is used for the key only, so
  it is given by the text \<open>JSON.stringify(params)\<close> returns; \<open>now\<close> is the reading of
  \<open>Date.now()\<close> at the circuit-breaker check.
\<close>

definition circuitBreakerKey :: "string \<Rightarrow> string \<Rightarrow> string" where
  "circuitBreakerKey command paramsJson = command @ ''_'' @ paramsJson"

definition executeWithRetry ::
  "Engine \<Rightarrow> RetryManagerConfig \<Rightarrow> BreakerTable \<Rightarrow> string \<Rightarrow> string \<Rightarrow> int \<Rightarrow> (nat \<Rightarrow> 'a Attempt)
     \<Rightarrow> 'a Execution" where
  "executeWithRetry engine config table command paramsJson now executor =
     (let key = circuitBreakerKey command paramsJson;
          (isOpen, table1) = isCircuitBreakerOpen config now key table
      in if isOpen
         then \<lparr> result = Inl (''Circuit breaker is open for command: '' @ command),
                calls = 0, slept = [], breakers = table1 \<rparr>
         else retryLoop engine config command key executor 0 [] table1)"

definition createRetryManager :: RetryManagerConfig where
  "createRetryManager =
     \<lparr> errorHandler =
         \<lparr> defaultRetryStrategy = standardRetryStrategy,
           commandRetryStrategies = Map.empty,
           fallbackStrategies = Map.empty \<rparr>,
       circuitBreakerThreshold = 5,
       circuitBreakerTimeout = 60000 \<rparr>"


text \<open>Readings of a table at a key.  A key without an entry reads as no failures and
  \<open>CLOSED\<close>, the values \<open>recordFailure\<close> starts from and the answer
  \<open>isCircuitBreakerOpen\<close> gives.\<close>

definition failuresOf :: "BreakerTable \<Rightarrow> string \<Rightarrow> nat" where
  "failuresOf table key = (case table key of Some st \<Rightarrow> failures st | None \<Rightarrow> 0)"

definition stateOf :: "BreakerTable \<Rightarrow> string \<Rightarrow> BreakerState" where
  "stateOf table key = (case table key of Some st \<Rightarrow> state st | None \<Rightarrow> CLOSED)"

text \<open>Consecutive calls of \<open>recordFailure\<close> for one key, at the given clock readings.\<close>

definition recordFailures ::
  "RetryManagerConfig \<Rightarrow> int list \<Rightarrow> string \<Rightarrow> BreakerTable \<Rightarrow> BreakerTable" where
  "recordFailures config stamps key table =
     foldl (\<lambda>t now. recordFailure config now key t) table stamps"

section \<open>Client manager (state/client-manager.ts)\<close>

datatype JsValue =
    JUndefined | JNull | JBoolean bool | JNumber real | JString string
  | JArray "JsValue list" | JObject "(string \<times> JsValue) list"

record MCPCommand =
  commandId :: string
  commandType :: string
  params :: JsValue
  timestamp :: int
  timeoutMs :: int
  commandRetryCount :: nat
  commandMaxRetries :: nat
  priority :: string
  commandClientId :: string

record RateLimit =
  requests :: nat
  windowStart :: int

record ClientState =
  clientId :: string
  connected :: bool
  connectedAt :: int
  lastHeartbeat :: int
  lastActivity :: int
  activeCommands :: "(string \<times> MCPCommand) list"
  commandHistory :: "MCPCommand list"
  apiKey :: string
  rateLimit :: RateLimit

text \<open>
  The \<open>Map\<close> of clients keeps insertion order (\<open>getAllClients\<close> lists it in that
  order), so it is an association list: \<open>set\<close> replaces the value of a present key in
  place and appends an absent one, \<open>delete\<close> removes the key.
\<close>

type_synonym Clients = "(string \<times> ClientState) list"

definition addClient :: "ClientState \<Rightarrow> Clients \<Rightarrow> Clients" where
  "addClient client cs = AList.update (clientId client) client cs"

definition getClient :: "string \<Rightarrow> Clients \<Rightarrow> ClientState option" where
  "getClient cid cs = map_of cs cid"

definition getAllClients :: "Clients \<Rightarrow> ClientState list" where
  "getAllClients cs = map snd cs"

text \<open>\<open>updateClientState\<close>: \<open>Object.assign\<close> of the partial update, given as a function.\<close>

definition updateClientState ::
  "string \<Rightarrow> (ClientState \<Rightarrow> ClientState) \<Rightarrow> Clients \<Rightarrow> Clients" where
  "updateClientState cid updates cs =
     (case map_of cs cid of
        Some client \<Rightarrow> AList.update cid (updates client) cs
      | None \<Rightarrow> cs)"

definition removeClient :: "string \<Rightarrow> Clients \<Rightarrow> Clients" where
  "removeClient cid cs = AList.delete cid cs"

section \<open>Server (server.ts)\<close>

text \<open>How a pending command's promise is settled: \<open>resolve(data)\<close> or
  \<open>reject(new Error(message))\<close>.\<close>

datatype Settlement = Resolved JsValue | Rejected string

datatype ServerMessage =
    AuthSuccess string
  | ErrorMessage string string
  | CommandMessage string string string

text \<open>
  Where a message goes: to the socket of one connection, named by the client id the
  server gave it, or to every open socket (\<open>sendMessageToClient\<close> does not pick the
  socket of its client).
\<close>

datatype Recipient = Socket string | AllOpenSockets

text \<open>
  The state of the server.  \<open>pendingCommands\<close> maps a command id to its entry; the entry
  is identified by a handle, the one \<open>setTimeout\<close> returns, which also names the
  promise whose \<open>resolve\<close> and \<open>reject\<close> the entry holds.  \<open>timers\<close> holds the armed
  timers with the command id their callback closes over: \<open>clearTimeout\<close> and firing
  both disarm.  \<open>settlements\<close> lists every call of a promise's \<open>resolve\<close> or \<open>reject\<close>,
  in order.  \<open>sent\<close> lists the messages given to \<open>sendMessage\<close> with where they go,
  \<open>enqueued\<close> the commands given to \<open>commandQueue.enqueue\<close>.
\<close>

record Server =
  clients :: Clients
  pendingCommands :: "string \<rightharpoonup> nat"
  timers :: "nat \<rightharpoonup> string"
  nextTimer :: nat
  settlements :: "(nat \<times> Settlement) list"
  sent :: "(Recipient \<times> ServerMessage) list"
  enqueued :: "MCPCommand list"

definition initialServer :: Server where
  "initialServer =
     \<lparr> clients = [], pendingCommands = Map.empty, timers = Map.empty, nextTimer = 0,
       settlements = [], sent = [], enqueued = [] \<rparr>"

definition sendError :: "string \<Rightarrow> string \<Rightarrow> string \<Rightarrow> Server \<Rightarrow> Server" where
  "sendError cid code message srv = srv\<lparr> sent := sent srv @ [(Socket cid, ErrorMessage code message)] \<rparr>"

definition handleAuth :: "string \<Rightarrow> int \<Rightarrow> Server \<Rightarrow> Server" where
  "handleAuth cid now srv =
     (let clientState =
            \<lparr> clientId = cid, connected = True, connectedAt = now, lastHeartbeat = now,
              lastActivity = now, activeCommands = [], commandHistory = [],
              apiKey = ''no-auth-required'',
              rateLimit = \<lparr> requests = 0, windowStart = now \<rparr> \<rparr>
      in srv\<lparr> clients := addClient clientState (clients srv),
              sent := sent srv @ [(Socket cid, AuthSuccess cid)] \<rparr>)"

definition validTypes :: "string list" where
  "validTypes =
     [''navigate'', ''click'', ''extract'', ''extract_data'', ''extract_table'',
      ''extract_links'', ''extract_images'', ''extract_text'', ''extract_attribute'',
      ''type'', ''select'', ''check'', ''hover'', ''scroll'', ''dragDrop'', ''upload'',
      ''evaluate'', ''reload'', ''goBack'', ''goForward'', ''newTab'', ''closeTab'',
      ''switchTab'', ''getTabs'', ''getCookies'', ''setCookie'', ''deleteCookie'',
      ''clearCookies'', ''getLocalStorage'', ''setLocalStorage'', ''getSessionStorage'',
      ''setSessionStorage'', ''clearStorage'', ''wait'', ''waitForSelector'',
      ''waitForText'', ''waitForNavigation'', ''waitForNetworkIdle'', ''analyze'',
      ''screenshot'']"

text \<open>JavaScript truthiness, and \<open>typeof v === 'object'\<close>.\<close>

fun truthy :: "JsValue \<Rightarrow> bool" where
  "truthy JUndefined = False"
| "truthy JNull = False"
| "truthy (JBoolean b) = b"
| "truthy (JNumber n) = (n \<noteq> 0)"
| "truthy (JString s) = (s \<noteq> [])"
| "truthy (JArray _) = True"
| "truthy (JObject _) = True"

fun typeofObject :: "JsValue \<Rightarrow> bool" where
  "typeofObject JNull = True"
| "typeofObject (JArray _) = True"
| "typeofObject (JObject _) = True"
| "typeofObject _ = False"

definition validateCommand :: "MCPCommand \<Rightarrow> bool" where
  "validateCommand command =
     (if commandType command \<notin> set validTypes then False
      else if \<not> truthy (params command) \<or> \<not> typeofObject (params command) then False
      else True)"

definition checkRateLimit :: "string \<Rightarrow> int \<Rightarrow> Server \<Rightarrow> bool \<times> Server" where
  "checkRateLimit cid now srv =
     (case getClient cid (clients srv) of
        None \<Rightarrow> (False, srv)
      | Some client \<Rightarrow>
          let windowMs = 60000;
              maxRequests = 100;
              limit1 = (if now - windowStart (rateLimit client) > windowMs
                        then \<lparr> requests = 0, windowStart = now \<rparr>
                        else rateLimit client)
          in if requests limit1 \<ge> maxRequests
             then (False,
                   srv\<lparr> clients := AList.update cid (client\<lparr> rateLimit := limit1 \<rparr>)
                                      (clients srv) \<rparr>)
             else (True,
                   srv\<lparr> clients :=
                          AList.update cid
                            (client\<lparr> rateLimit := limit1\<lparr> requests := requests limit1 + 1 \<rparr> \<rparr>)
                            (clients srv) \<rparr>))"

text \<open>
  A \<open>command\<close> frame as \<open>JSON.parse\<close> delivers it: a field that is absent is \<open>None\<close>
  (\<open>JUndefined\<close> for \<open>params\<close>).  \<open>orElse\<close> is the \<open>||\<close> of the source on an optional
  string (the empty string is falsy).
\<close>

record CommandFrame =
  frameId :: "string option"
  frameCommand :: "string option"
  frameType :: string
  frameParams :: JsValue
  frameTimeout :: "int option"
  frameMaxRetries :: "nat option"
  framePriority :: "string option"

definition orElse :: "string option \<Rightarrow> string \<Rightarrow> string" where
  "orElse v d = (case v of Some s \<Rightarrow> (if s \<noteq> [] then s else d) | None \<Rightarrow> d)"

text \<open>\<open>handleCommand\<close>; \<open>freshId\<close> is what \<open>generateCommandId()\<close> returns.\<close>

definition handleCommand :: "string \<Rightarrow> CommandFrame \<Rightarrow> int \<Rightarrow> string \<Rightarrow> Server \<Rightarrow> Server" where
  "handleCommand cid message now freshId srv =
     (let command =
            \<lparr> commandId = orElse (frameId message) freshId,
              commandType = orElse (frameCommand message) (frameType message),
              params = (if truthy (frameParams message) then frameParams message
                        else JObject []),
              timestamp = now,
              timeoutMs = (case frameTimeout message of
                             Some t \<Rightarrow> (if t \<noteq> 0 then t else 30000) | None \<Rightarrow> 30000),
              commandRetryCount = 0,
              commandMaxRetries = (case frameMaxRetries message of
                                     Some n \<Rightarrow> (if n \<noteq> 0 then n else 3) | None \<Rightarrow> 3),
              priority = orElse (framePriority message) ''normal'',
              commandClientId = cid \<rparr>
      in if \<not> validateCommand command
         then sendError cid ''INVALID_PARAMS'' ''Invalid command parameters'' srv
         else case checkRateLimit cid now srv of
                (allowed, srv1) \<Rightarrow>
                  if \<not> allowed
                  then sendError cid ''RATE_LIMIT_EXCEEDED'' ''Rate limit exceeded'' srv1
                  else srv1\<lparr> enqueued := enqueued srv1 @ [command] \<rparr>)"

text \<open>A \<open>response\<close> frame: \<open>id\<close>, \<open>success\<close>, \<open>data\<close> and \<open>error?.message\<close>.\<close>

record ResponseFrame =
  responseId :: string
  success :: bool
  responseData :: JsValue
  errorMessage :: "string option"

definition handleResponse :: "string \<Rightarrow> ResponseFrame \<Rightarrow> int \<Rightarrow> Server \<Rightarrow> Server" where
  "handleResponse cid response now srv =
     (let srv1 = srv\<lparr> clients :=
                        updateClientState cid (\<lambda>c. c\<lparr> lastActivity := now \<rparr>) (clients srv) \<rparr>
      in case pendingCommands srv1 (responseId response) of
           None \<Rightarrow> srv1
         | Some handle \<Rightarrow>
             srv1\<lparr> timers := (timers srv1)(handle := None),
                   pendingCommands := (pendingCommands srv1)(responseId response := None),
                   settlements := settlements srv1 @
                     [(handle,
                       if success response then Resolved (responseData response)
                       else Rejected (orElse (errorMessage response) ''Command failed''))] \<rparr>)"

definition handleHeartbeat :: "string \<Rightarrow> int \<Rightarrow> Server \<Rightarrow> Server" where
  "handleHeartbeat cid now srv =
     srv\<lparr> clients :=
           updateClientState cid (\<lambda>c. c\<lparr> lastHeartbeat := now, lastActivity := now \<rparr>)
             (clients srv) \<rparr>"

definition handleDisconnection :: "string \<Rightarrow> Server \<Rightarrow> Server" where
  "handleDisconnection cid srv = srv\<lparr> clients := removeClient cid (clients srv) \<rparr>"

definition cleanupStaleConnections :: "int \<Rightarrow> Server \<Rightarrow> Server" where
  "cleanupStaleConnections now srv =
     (let staleTimeout = 120000
      in foldl (\<lambda>s client.
                  if now - lastHeartbeat client > staleTimeout
                  then s\<lparr> clients := removeClient (clientId client) (clients s) \<rparr>
                  else s)
           srv (getAllClients (clients srv)))"

text \<open>
  The promise that the executor of \<open>handleMCPProtocol\<close> creates for a command:
  \<open>setTimeout\<close> arms a timer, and the entry is stored under the command id.
\<close>

definition registerPending :: "string \<Rightarrow> Server \<Rightarrow> Server" where
  "registerPending cmdId srv =
     (let handle = nextTimer srv
      in srv\<lparr> timers := (timers srv)(handle \<mapsto> cmdId),
              nextTimer := Suc handle,
              pendingCommands := (pendingCommands srv)(cmdId \<mapsto> handle) \<rparr>)"

text \<open>
  The callback given to \<open>setTimeout\<close>, run by the event loop for the timer \<open>handle\<close>.
  A timer that was cleared, or that has fired, does not run.
\<close>

definition timeoutFires :: "nat \<Rightarrow> Server \<Rightarrow> Server" where
  "timeoutFires handle srv =
     (case timers srv handle of
        None \<Rightarrow> srv
      | Some cmdId \<Rightarrow>
          srv\<lparr> timers := (timers srv)(handle := None),
                pendingCommands := (pendingCommands srv)(cmdId := None),
                settlements := settlements srv @ [(handle, Rejected ''Command timeout'')] \<rparr>)"

definition sendMessageToClient :: "string \<Rightarrow> ServerMessage \<Rightarrow> Server \<Rightarrow> Server" where
  "sendMessageToClient cid message srv =
     (case getClient cid (clients srv) of
        Some client \<Rightarrow> srv\<lparr> sent := sent srv @ [(AllOpenSockets, message)] \<rparr>
      | None \<Rightarrow> srv)"

text \<open>What the executor does before it awaits the promise, for the command id
  \<open>generateCommandId()\<close> returned.\<close>

definition dispatchCommand :: "string \<Rightarrow> string \<Rightarrow> string \<Rightarrow> string \<Rightarrow> Server \<Rightarrow> Server" where
  "dispatchCommand target cmdId command paramsJson srv =
     sendMessageToClient target (CommandMessage cmdId command paramsJson)
       (registerPending cmdId srv)"

text \<open>
  The \<open>tools/call\<close> branch of \<open>handleMCPProtocol\<close>.  The executor is given by how the
  promise of each attempt settles.  The answer is the JSON-RPC reply (\<open>Inl\<close> an error
  with its code and message, \<open>Inr\<close> the result) and what \<open>executeWithRetry\<close> did, if it
  was called.
\<close>

record 'a ToolCall =
  reply :: "(int \<times> string) + 'a"
  execution :: "'a Execution option"

definition handleMCPProtocol_toolsCall ::
  "Engine \<Rightarrow> RetryManagerConfig \<Rightarrow> BreakerTable \<Rightarrow> Server \<Rightarrow> string \<Rightarrow> string \<Rightarrow> int
     \<Rightarrow> (nat \<Rightarrow> 'a Attempt) \<Rightarrow> 'a ToolCall" where
  "handleMCPProtocol_toolsCall engine config table srv name argsJson now executor =
     (let commandType = replaceFirst ''browser_'' [] name;
          connectedClients = getAllClients (clients srv)
      in if length connectedClients = 0
         then \<lparr> reply = Inl (- 32603, ''No connected clients''), execution = None \<rparr>
         else let run = executeWithRetry engine config table commandType argsJson now executor
              in \<lparr> reply = (case result run of
                               Inr v \<Rightarrow> Inr v
                             | Inl failure \<Rightarrow>
                                 Inl (- 32603, ''Command failed: '' @ failure)),
                     execution = Some run \<rparr>)"

text \<open>
  The units of work of the dispatch loop, each run to completion before the next: the
  handlers of the four kinds of frame, a disconnection, a heartbeat sweep, the executor
  dispatching a command, and a timer firing.  A run of the server is a list of them, in
  the order the event loop takes them.
\<close>

datatype Event =
    Authenticates string int
  | Commands string CommandFrame int string
  | Responds string ResponseFrame int
  | Heartbeats string int
  | Disconnects string
  | Sweeps int
  | Dispatches string string string string
  | Fires nat

fun step :: "Server \<Rightarrow> Event \<Rightarrow> Server" where
  "step srv (Authenticates cid now) = handleAuth cid now srv"
| "step srv (Commands cid message now freshId) = handleCommand cid message now freshId srv"
| "step srv (Responds cid response now) = handleResponse cid response now srv"
| "step srv (Heartbeats cid now) = handleHeartbeat cid now srv"
| "step srv (Disconnects cid) = handleDisconnection cid srv"
| "step srv (Sweeps now) = cleanupStaleConnections now srv"
| "step srv (Dispatches target cmdId command paramsJson) =
     dispatchCommand target cmdId command paramsJson srv"
| "step srv (Fires handle) = timeoutFires handle srv"

definition runEvents :: "Event list \<Rightarrow> Server \<Rightarrow> Server" where
  "runEvents events srv = foldl step srv events"

text \<open>Consecutive calls of \<open>checkRateLimit\<close> for one client, at the given clock readings.\<close>

fun rateChecks :: "string \<Rightarrow> int list \<Rightarrow> Server \<Rightarrow> bool list \<times> Server" where
  "rateChecks cid [] srv = ([], srv)"
| "rateChecks cid (now # stamps) srv =
     (case checkRateLimit cid now srv of
        (allowed, srv1) \<Rightarrow>
          (case rateChecks cid stamps srv1 of
             (rest, srv2) \<Rightarrow> (allowed # rest, srv2)))"

definition requestsOf :: "string \<Rightarrow> Server \<Rightarrow> nat" where
  "requestsOf cid srv =
     (case getClient cid (clients srv) of
        Some client \<Rightarrow> requests (rateLimit client) | None \<Rightarrow> 0)"

text \<open>
  What holds of the pending commands in every state the server reaches: the entry of a
  command id names an armed timer whose callback is for that id; an armed timer has a
  handle already given out and its promise has not been settled; the promises settled
  have handles already given out, and none has been settled twice.
\<close>

definition pendingInv :: "Server \<Rightarrow> bool" where
  "pendingInv srv \<longleftrightarrow>
     (\<forall>cmdId h. pendingCommands srv cmdId = Some h \<longrightarrow> timers srv h = Some cmdId)
   \<and> (\<forall>h cmdId. timers srv h = Some cmdId \<longrightarrow>
          h < nextTimer srv \<and> h \<notin> fst ` set (settlements srv))
   \<and> (\<forall>h \<in> fst ` set (settlements srv). h < nextTimer srv)
   \<and> distinct (map fst (settlements srv))"

text \<open>A server with one client, to which two commands have been dispatched.\<close>

definition twoPending :: Server where
  "twoPending =
     dispatchCommand ''client_1'' ''cmd_2'' ''click'' ''{}''
       (dispatchCommand ''client_1'' ''cmd_1'' ''navigate'' ''{}''
          (handleAuth ''client_1'' 0 initialServer))"

section \<open>Properties of the rounding\<close>

lemma roundHalfEven_ge: "real_of_int n \<le> y \<Longrightarrow> n \<le> roundHalfEven y"
proof -
  assume "real_of_int n \<le> y"
  then have "n \<le> \<lfloor>y\<rfloor>" by (simp add: le_floor_iff)
  then show ?thesis unfolding roundHalfEven_def Let_def by auto
qed

lemma roundHalfEven_le: "y \<le> real_of_int n \<Longrightarrow> roundHalfEven y \<le> n"
proof -
  assume a: "y \<le> real_of_int n"
  then have f: "\<lfloor>y\<rfloor> \<le> n" by (simp add: floor_le_iff)
  have "y \<noteq> real_of_int \<lfloor>y\<rfloor> \<Longrightarrow> \<lfloor>y\<rfloor> + 1 \<le> n"
  proof -
    assume "y \<noteq> real_of_int \<lfloor>y\<rfloor>"
    then have "real_of_int \<lfloor>y\<rfloor> < y" using of_int_floor_le[of y] by linarith
    with a have "real_of_int \<lfloor>y\<rfloor> < real_of_int n" by linarith
    then show ?thesis by simp
  qed
  with f show ?thesis unfolding roundHalfEven_def Let_def by auto
qed

lemma roundHalfEven_of_int: "roundHalfEven (real_of_int n) = n"
  by (simp add: roundHalfEven_def)

lemma roundHalfEven_near: "\<bar>y - real_of_int (roundHalfEven y)\<bar> \<le> 1 / 2"
  unfolding roundHalfEven_def Let_def by (auto; linarith)

lemma roundHalfEven_mono: "a \<le> b \<Longrightarrow> roundHalfEven a \<le> roundHalfEven b"
proof (rule ccontr)
  assume ab: "a \<le> b" and "\<not> roundHalfEven a \<le> roundHalfEven b"
  then have gt: "roundHalfEven b + 1 \<le> roundHalfEven a" by simp
  have na: "real_of_int (roundHalfEven a) - 1 / 2 \<le> a" using roundHalfEven_near[of a] by linarith
  have nb: "b \<le> real_of_int (roundHalfEven b) + 1 / 2" using roundHalfEven_near[of b] by linarith
  from gt have "real_of_int (roundHalfEven b) + 1 \<le> real_of_int (roundHalfEven a)" by linarith
  with na nb ab have "a = b" by linarith
  with gt show False by simp
qed

lemma ulp_pos: "0 < ulp x"
  by (simp add: ulp_def)

lemma binade_upper: "x \<noteq> 0 \<Longrightarrow> \<bar>x\<bar> < 2 powr real_of_int (binade x + 1)"
proof -
  assume "x \<noteq> 0"
  then have p: "0 < \<bar>x\<bar>" by simp
  have "log 2 \<bar>x\<bar> < real_of_int (\<lfloor>log 2 \<bar>x\<bar>\<rfloor> + 1)" by linarith
  also have "\<dots> \<le> real_of_int (binade x + 1)" by (simp add: binade_def)
  finally have "log 2 \<bar>x\<bar> < real_of_int (binade x + 1)" .
  then show ?thesis using p by (simp add: log_less_iff)
qed

lemma binade_lower: "x \<noteq> 0 \<Longrightarrow> - 1022 < binade x \<Longrightarrow> 2 powr real_of_int (binade x) \<le> \<bar>x\<bar>"
proof -
  assume "x \<noteq> 0" and b: "- 1022 < binade x"
  then have p: "0 < \<bar>x\<bar>" by simp
  from b have "binade x = \<lfloor>log 2 \<bar>x\<bar>\<rfloor>" by (simp add: binade_def max_def split: if_splits)
  then have "real_of_int (binade x) \<le> log 2 \<bar>x\<bar>" by simp
  then show ?thesis using p by (simp add: le_log_iff)
qed

lemma binade_mono: "0 < x \<Longrightarrow> x \<le> y \<Longrightarrow> binade x \<le> binade y"
proof -
  assume "0 < x" "x \<le> y"
  then have "log 2 \<bar>x\<bar> \<le> log 2 \<bar>y\<bar>" by simp
  then have "\<lfloor>log 2 \<bar>x\<bar>\<rfloor> \<le> \<lfloor>log 2 \<bar>y\<bar>\<rfloor>" by (rule floor_mono)
  then show ?thesis by (simp add: binade_def)
qed

lemma binade_ge: "- 1022 \<le> binade x"
  by (simp add: binade_def)

lemma p2_add: "2 powr real_of_int (a + b) = 2 powr real_of_int a * 2 powr real_of_int b"
  by (simp add: powr_add)

lemma p2_nat: "2 powr real_of_int (int n) = 2 ^ n"
  by (simp add: powr_realpow)

lemma pow2_split: "2 powr real_of_int (e + 1) = 2 ^ 53 * 2 powr real_of_int (e - 52)"
proof -
  have "e + 1 = int 53 + (e - 52)" by simp
  then have "2 powr real_of_int (e + 1) = 2 powr real_of_int (int 53 + (e - 52))" by (simp only:)
  also have "\<dots> = 2 ^ 53 * 2 powr real_of_int (e - 52)" by (simp only: p2_add p2_nat)
  finally show ?thesis .
qed

lemma pow2_split0: "2 powr real_of_int e = 2 ^ 52 * 2 powr real_of_int (e - 52)"
proof -
  have "e = int 52 + (e - 52)" by simp
  then have "2 powr real_of_int e = 2 powr real_of_int (int 52 + (e - 52))" by (simp only:)
  also have "\<dots> = 2 ^ 52 * 2 powr real_of_int (e - 52)" by (simp only: p2_add p2_nat)
  finally show ?thesis .
qed

lemma round64_upper: "0 < x \<Longrightarrow> round64 x \<le> 2 powr real_of_int (binade x + 1)"
proof -
  assume p: "0 < x"
  have "x < 2 ^ 53 * ulp x" using binade_upper[of x] p unfolding pow2_split ulp_def by simp
  then have "x / ulp x \<le> real_of_int (2 ^ 53)" using ulp_pos[of x] by (simp add: pos_divide_le_eq)
  then have "roundHalfEven (x / ulp x) \<le> 2 ^ 53" by (rule roundHalfEven_le)
  then have "real_of_int (roundHalfEven (x / ulp x)) \<le> real_of_int (2 ^ 53)" by (simp only: of_int_le_iff)
  then have "real_of_int (roundHalfEven (x / ulp x)) \<le> 2 ^ 53" by simp
  then have "real_of_int (roundHalfEven (x / ulp x)) * ulp x \<le> 2 ^ 53 * ulp x"
    using ulp_pos[of x] by simp
  then show ?thesis using p unfolding round64_def pow2_split ulp_def by simp
qed

lemma round64_lower: "0 < x \<Longrightarrow> - 1022 < binade x \<Longrightarrow> 2 powr real_of_int (binade x) \<le> round64 x"
proof -
  assume p: "0 < x" and b: "- 1022 < binade x"
  have "2 powr real_of_int (binade x) \<le> x" using binade_lower[of x] p b by simp
  then have "2 ^ 52 * ulp x \<le> x" unfolding ulp_def by (subst (asm) pow2_split0)
  then have "real_of_int (2 ^ 52) \<le> x / ulp x" using ulp_pos[of x] by (simp add: pos_le_divide_eq)
  then have "2 ^ 52 \<le> roundHalfEven (x / ulp x)" by (rule roundHalfEven_ge)
  then have "real_of_int (2 ^ 52) \<le> real_of_int (roundHalfEven (x / ulp x))" by (simp only: of_int_le_iff)
  then have "2 ^ 52 \<le> real_of_int (roundHalfEven (x / ulp x))" by simp
  then have "2 ^ 52 * ulp x \<le> real_of_int (roundHalfEven (x / ulp x)) * ulp x"
    using ulp_pos[of x] by simp
  then have "2 ^ 52 * ulp x \<le> round64 x" using p by (simp add: round64_def)
  then show ?thesis unfolding ulp_def by (subst pow2_split0)
qed

lemma round64_nonneg: "0 \<le> x \<Longrightarrow> 0 \<le> round64 x"
proof -
  assume "0 \<le> x"
  then have "real_of_int 0 \<le> x / ulp x" using ulp_pos[of x] by simp
  then have "0 \<le> roundHalfEven (x / ulp x)" by (rule roundHalfEven_ge)
  then show ?thesis using ulp_pos[of x] by (simp add: round64_def)
qed

lemma round64_mono: "0 \<le> x \<Longrightarrow> x \<le> y \<Longrightarrow> round64 x \<le> round64 y"
proof -
  assume x0: "0 \<le> x" and xy: "x \<le> y"
  show ?thesis
  proof (cases "x = 0")
    case True
    then show ?thesis using round64_nonneg[of y] xy by (simp add: round64_def)
  next
    case False
    then have px: "0 < x" using x0 by simp
    then have py: "0 < y" using xy by simp
    have le: "binade x \<le> binade y" using px xy by (rule binade_mono)
    show ?thesis
    proof (cases "binade x = binade y")
      case True
      then have u: "ulp x = ulp y" by (simp add: ulp_def)
      have "x / ulp y \<le> y / ulp y" using xy ulp_pos[of y] by (simp add: divide_right_mono)
      then have "roundHalfEven (x / ulp y) \<le> roundHalfEven (y / ulp y)" by (rule roundHalfEven_mono)
      then have "real_of_int (roundHalfEven (x / ulp y)) * ulp y \<le> real_of_int (roundHalfEven (y / ulp y)) * ulp y"
        using ulp_pos[of y] by simp
      then show ?thesis using px py u by (simp add: round64_def)
    next
      case False
      with le have lt: "binade x + 1 \<le> binade y" by simp
      then have b: "- 1022 < binade y" using binade_ge[of x] by linarith
      have "round64 x \<le> 2 powr real_of_int (binade x + 1)" using px by (rule round64_upper)
      also have "\<dots> \<le> 2 powr real_of_int (binade y)" using lt by simp
      also have "\<dots> \<le> round64 y" using py b by (rule round64_lower)
      finally show ?thesis .
    qed
  qed
qed


lemma binade_le: "0 < x \<Longrightarrow> x < 2 powr real_of_int (b + 1) \<Longrightarrow> - 1022 \<le> b \<Longrightarrow> binade x \<le> b"
proof -
  assume p: "0 < x" and u: "x < 2 powr real_of_int (b + 1)" and b: "- 1022 \<le> b"
  from p u have "log 2 x < real_of_int (b + 1)" by (simp add: log_less_iff)
  then have "\<lfloor>log 2 x\<rfloor> < b + 1" by (simp only: floor_less_iff)
  then show ?thesis using p b by (simp add: binade_def)
qed

lemma binade_eq:
  "0 < x \<Longrightarrow> x < 2 powr real_of_int (e + 1) \<Longrightarrow> (- 1022 < e \<longrightarrow> 2 powr real_of_int e \<le> x)
     \<Longrightarrow> - 1022 \<le> e \<Longrightarrow> binade x = e"
proof -
  assume p: "0 < x" and u: "x < 2 powr real_of_int (e + 1)"
    and l: "- 1022 < e \<longrightarrow> 2 powr real_of_int e \<le> x" and b: "- 1022 \<le> e"
  have le: "binade x \<le> e" using p u b by (rule binade_le)
  show ?thesis
  proof (cases "- 1022 < e")
    case True
    with l have "2 powr real_of_int e \<le> x" by simp
    then have "real_of_int e \<le> log 2 x" using p by (simp add: le_log_iff)
    then have "e \<le> \<lfloor>log 2 x\<rfloor>" by (simp add: le_floor_iff)
    then have "e \<le> binade x" using p by (simp add: binade_def)
    with le show ?thesis by simp
  next
    case False
    with b have "e = - 1022" by simp
    with le binade_ge[of x] show ?thesis by simp
  qed
qed

lemma round64_exact: "x / ulp x = real_of_int m \<Longrightarrow> round64 x = x"
proof -
  assume a: "x / ulp x = real_of_int m"
  then have "x = real_of_int m * ulp x" using ulp_pos[of x] by (simp add: field_simps)
  then show ?thesis using a by (simp add: round64_def roundHalfEven_of_int)
qed

lemma round64_idem: "0 \<le> x \<Longrightarrow> round64 (round64 x) = round64 x"
proof -
  assume x0: "0 \<le> x"
  define y where "y = round64 x"
  define M where "M = roundHalfEven (x / ulp x)"
  show ?thesis
  proof (cases "y = 0")
    case True
    then show ?thesis by (simp add: y_def round64_def)
  next
    case False
    have y0: "0 \<le> y" using x0 by (simp add: y_def round64_nonneg)
    with False have py: "0 < y" by simp
    have xn: "x \<noteq> 0" using False by (auto simp: y_def round64_def)
    with x0 have px: "0 < x" by simp
    have yM: "y = real_of_int M * ulp x" using xn by (simp add: y_def M_def round64_def)
    have up: "y \<le> 2 powr real_of_int (binade x + 1)" unfolding y_def using px by (rule round64_upper)
    show ?thesis
    proof (cases "y = 2 powr real_of_int (binade x + 1)")
      case True
      have "binade y = binade x + 1"
      proof (rule binade_eq)
        show "0 < y" by (rule py)
        show "y < 2 powr real_of_int (binade x + 1 + 1)" using True by simp
        show "- 1022 < binade x + 1 \<longrightarrow> 2 powr real_of_int (binade x + 1) \<le> y" using True by simp
        show "- 1022 \<le> binade x + 1" using binade_ge[of x] by simp
      qed
      then have "ulp y = 2 powr real_of_int (binade x + 1 - 52)" by (simp add: ulp_def)
      moreover have "y = 2 ^ 52 * 2 powr real_of_int (binade x + 1 - 52)"
        using True pow2_split0[of "binade x + 1"] by simp
      ultimately have "y / ulp y = real_of_int (2 ^ 52)" by simp
      then have "round64 y = y" by (rule round64_exact)
      then show ?thesis by (simp add: y_def)
    next
      case F2: False
      with up have lt: "y < 2 powr real_of_int (binade x + 1)" by simp
      have "binade y = binade x"
      proof (rule binade_eq)
        show "0 < y" by (rule py)
        show "y < 2 powr real_of_int (binade x + 1)" by (rule lt)
        show "- 1022 < binade x \<longrightarrow> 2 powr real_of_int (binade x) \<le> y"
          unfolding y_def using round64_lower[of x] px by simp
        show "- 1022 \<le> binade x" by (rule binade_ge)
      qed
      then have "ulp y = ulp x" by (simp add: ulp_def)
      then have "y / ulp y = real_of_int M" using yM ulp_pos[of x] by simp
      then have "round64 y = y" by (rule round64_exact)
      then show ?thesis by (simp add: y_def)
    qed
  qed
qed

lemma round64_dyadic:
  assumes "0 < k" and "k < 2 ^ 53" and "m \<le> 1074"
  shows "round64 (real_of_int k / 2 ^ m) = real_of_int k / 2 ^ m"
proof -
  define x where "x = real_of_int k / 2 ^ m"
  have px: "0 < x" using assms(1) by (simp add: x_def)
  have "real_of_int k < real_of_int (2 ^ 53)" using assms(2) by (simp only: of_int_less_iff)
  then have "real_of_int k < 2 ^ 53" by simp
  then have "x < 2 ^ 53 / 2 ^ m" by (simp add: x_def divide_strict_right_mono)
  also have "(2::real) ^ 53 / 2 ^ m = 2 powr real_of_int (int 53 - int m)"
    by (simp add: powr_diff powr_realpow)
  finally have "x < 2 powr real_of_int ((52 - int m) + 1)" by (simp add: algebra_simps)
  then have le: "binade x \<le> 52 - int m" using px assms(3) by (intro binade_le) simp_all
  define n where "n = nat (52 - int m - binade x)"
  have n: "int n = 52 - int m - binade x" using le by (simp add: n_def)
  have "ulp x * 2 ^ n * 2 ^ m = 2 powr real_of_int (binade x - 52) * 2 powr real_of_int (int n) * 2 powr real_of_int (int m)"
    by (simp only: ulp_def p2_nat)
  also have "\<dots> = 2 powr real_of_int (binade x - 52 + int n + int m)" by (simp only: p2_add)
  also have "\<dots> = 1" using n by simp
  finally have one: "ulp x * 2 ^ n * 2 ^ m = 1" .
  have "x / ulp x = x * (ulp x * 2 ^ n * 2 ^ m) / ulp x" by (simp only: one mult_1_right)
  also have "\<dots> = (x * 2 ^ m) * 2 ^ n" using ulp_pos[of x] by simp
  also have "\<dots> = real_of_int k * 2 ^ n" by (simp add: x_def)
  also have "\<dots> = real_of_int (k * 2 ^ n)" by simp
  finally have "round64 x = x" by (rule round64_exact)
  then show ?thesis by (simp add: x_def)
qed

lemma round64_of_int: "0 \<le> k \<Longrightarrow> k < 2 ^ 53 \<Longrightarrow> round64 (real_of_int k) = real_of_int k"
proof (cases "k = 0")
  case True
  then show ?thesis by (simp add: round64_def)
next
  case False
  assume "0 \<le> k" "k < 2 ^ 53"
  with False have "0 < k" by simp
  from round64_dyadic[OF this \<open>k < 2 ^ 53\<close>, of 0] show ?thesis by simp
qed

lemma round64_at:
  assumes "0 < x" and "2 powr real_of_int e \<le> x" and "x < 2 powr real_of_int (e + 1)" and "- 1022 \<le> e"
  shows "round64 x = real_of_int (roundHalfEven (x / 2 powr real_of_int (e - 52))) * 2 powr real_of_int (e - 52)"
proof -
  have "binade x = e" using assms by (intro binade_eq) simp_all
  then show ?thesis using assms(1) by (simp add: round64_def ulp_def)
qed

lemma round64_below_one:
  assumes "1 / 2 ^ n \<le> x" and "x < 2 / 2 ^ n" and "n \<le> 1022"
  shows "round64 x = real_of_int (roundHalfEven (x * 2 ^ (n + 52))) / 2 ^ (n + 52)"
proof -
  have px: "0 < x" proof -
    have "(0::real) < 1 / 2 ^ n" by simp
    with assms(1) show ?thesis by linarith
  qed
  have a: "2 powr real_of_int (- int n) = 1 / 2 ^ n"
    by (simp add: powr_minus powr_realpow divide_inverse)
  have b: "2 powr real_of_int (- int n + 1) = 2 / 2 ^ n"
  proof -
    have "2 powr real_of_int (- int n + 1) = 2 powr real_of_int (- int n) * 2 powr real_of_int 1"
      by (simp only: p2_add)
    then show ?thesis by (simp only: a) simp
  qed
  have c: "2 powr real_of_int (- int n - 52) = 1 / 2 ^ (n + 52)"
  proof -
    have e: "real_of_int (- int n - 52) = - real (n + 52)" by simp
    have "2 powr real_of_int (- int n - 52) = 2 powr (- real (n + 52))" by (simp only: e)
    also have "\<dots> = inverse (2 powr real (n + 52))" by (rule powr_minus)
    also have "2 powr real (n + 52) = (2::real) ^ (n + 52)" by (rule powr_realpow) simp
    finally show ?thesis by (simp only: divide_inverse mult_1)
  qed
  have l: "2 powr real_of_int (- int n) \<le> x" using assms(1) by (simp only: a)
  have u: "x < 2 powr real_of_int (- int n + 1)" using assms(2) by (simp only: b)
  have r: "- 1022 \<le> - int n" using assms(3) by simp
  show ?thesis unfolding round64_at[OF px l u r] c by simp
qed

lemma round64_above_one:
  assumes "2 ^ n \<le> x" and "x < 2 * 2 ^ n" and "n \<le> 52"
  shows "round64 x = real_of_int (roundHalfEven (x * 2 ^ (52 - n))) / 2 ^ (52 - n)"
proof -
  have px: "0 < x" proof -
    have "(0::real) < 2 ^ n" by simp
    with assms(1) show ?thesis by linarith
  qed
  have a: "2 powr real_of_int (int n) = 2 ^ n" by (rule p2_nat)
  have b: "2 powr real_of_int (int n + 1) = 2 * 2 ^ n"
  proof -
    have "2 powr real_of_int (int n + 1) = 2 powr real_of_int (int n) * 2 powr real_of_int 1"
      by (simp only: p2_add)
    then show ?thesis by (simp only: a) simp
  qed
  have c: "2 powr real_of_int (int n - 52) = 1 / 2 ^ (52 - n)"
  proof -
    have e: "real_of_int (int n - 52) = - real (52 - n)" using assms(3) by (simp add: of_nat_diff)
    have "2 powr real_of_int (int n - 52) = 2 powr (- real (52 - n))" by (simp only: e)
    also have "\<dots> = inverse (2 powr real (52 - n))" by (rule powr_minus)
    also have "2 powr real (52 - n) = (2::real) ^ (52 - n)" by (rule powr_realpow) simp
    finally show ?thesis by (simp only: divide_inverse mult_1)
  qed
  have l: "2 powr real_of_int (int n) \<le> x" using assms(1) by (simp only: a)
  have u: "x < 2 powr real_of_int (int n + 1)" using assms(2) by (simp only: b)
  have r: "- 1022 \<le> int n" by simp
  show ?thesis unfolding round64_at[OF px l u r] c by simp
qed


lemma roundHalfEven_minus: "roundHalfEven (- y) = - roundHalfEven y"
proof (cases "y = real_of_int \<lfloor>y\<rfloor>")
  case True
  then have "roundHalfEven y = \<lfloor>y\<rfloor>" using roundHalfEven_of_int[of "\<lfloor>y\<rfloor>"] by simp
  moreover have "roundHalfEven (- y) = - \<lfloor>y\<rfloor>"
    using roundHalfEven_of_int[of "- \<lfloor>y\<rfloor>"] True by (metis of_int_minus)
  ultimately show ?thesis by simp
next
  case False
  then have c: "\<lceil>y\<rceil> = \<lfloor>y\<rfloor> + 1" by (simp add: ceiling_altdef)
  have f: "\<lfloor>- y\<rfloor> = - \<lfloor>y\<rfloor> - 1" using c by (simp add: ceiling_def)
  show ?thesis unfolding roundHalfEven_def Let_def f by auto
qed

lemma binade_minus: "binade (- x) = binade x"
  by (simp add: binade_def)

lemma ulp_minus: "ulp (- x) = ulp x"
  by (simp add: ulp_def binade_minus)

lemma round64_minus: "round64 (- x) = - round64 x"
  by (simp add: round64_def ulp_minus roundHalfEven_minus)

lemma round64_nonpos: "x \<le> 0 \<Longrightarrow> round64 x \<le> 0"
  using round64_nonneg[of "- x"] by (simp add: round64_minus)

lemma round64_idempotent: "round64 (round64 x) = round64 x"
proof (cases "0 \<le> x")
  case True
  then show ?thesis by (rule round64_idem)
next
  case False
  then have "0 \<le> - x" by simp
  then have "round64 (round64 (- x)) = round64 (- x)" by (rule round64_idem)
  then show ?thesis by (simp add: round64_minus)
qed

lemma round64_monotone: "x \<le> y \<Longrightarrow> round64 x \<le> round64 y"
proof -
  assume xy: "x \<le> y"
  show ?thesis
  proof (cases "0 \<le> x")
    case True
    then show ?thesis using xy by (rule round64_mono)
  next
    case False
    show ?thesis
    proof (cases "0 \<le> y")
      case True
      have "round64 x \<le> 0" using False by (simp add: round64_nonpos)
      also have "0 \<le> round64 y" using True by (rule round64_nonneg)
      finally show ?thesis .
    next
      case F2: False
      then have "0 \<le> - y" "- y \<le> - x" using xy by simp_all
      then have "round64 (- y) \<le> round64 (- x)" by (rule round64_mono)
      then show ?thesis by (simp add: round64_minus)
    qed
  qed
qed

section \<open>Properties of the retry manager\<close>

declare retryLoop.simps [simp del]

lemma doRetry_handleError:
  "doRetry (handleError engine config msg command retryCount random) =
     shouldRetry (extractErrorCode engine msg) retryCount (getRetryStrategy config command)"
  by (simp add: handleError_def Let_def)

lemma failuresOf_recordFailure:
  "failuresOf (recordFailure config now key table) key = failuresOf table key + 1"
  by (simp add: failuresOf_def recordFailure_def Let_def split: option.splits)

lemma stateOf_recordFailure:
  "stateOf (recordFailure config now key table) key =
     (if circuitBreakerThreshold config \<le> failuresOf table key + 1 then OPEN else stateOf table key)"
  by (simp add: failuresOf_def stateOf_def recordFailure_def Let_def split: option.splits)

lemma recordFailure_other:
  "k \<noteq> key \<Longrightarrow> recordFailure config now key table k = table k"
  by (simp add: recordFailure_def Let_def)

lemma recordFailures_snoc:
  "recordFailures config (stamps @ [t]) key table = recordFailure config t key (recordFailures config stamps key table)"
  by (simp add: recordFailures_def)

lemma recordFailures_count:
  "failuresOf (recordFailures config stamps key table) key = failuresOf table key + length stamps
   \<and> stateOf (recordFailures config stamps key table) key =
      (if stamps \<noteq> [] \<and> circuitBreakerThreshold config \<le> failuresOf table key + length stamps
       then OPEN else stateOf table key)"
proof (induction stamps rule: rev_induct)
  case Nil
  show ?case by (simp add: recordFailures_def)
next
  case (snoc t stamps)
  then show ?case
    by (simp add: recordFailures_snoc failuresOf_recordFailure stateOf_recordFailure)
qed

lemma reset_view:
  "failuresOf (resetCircuitBreaker key table) key = 0 \<and> stateOf (resetCircuitBreaker key table) key = CLOSED"
  by (simp add: failuresOf_def stateOf_def resetCircuitBreaker_def split: option.splits)

lemma failuresOf_empty: "failuresOf Map.empty key = 0"
  by (simp add: failuresOf_def)

lemma isCircuitBreakerOpen_failures:
  "failuresOf (snd (isCircuitBreakerOpen config now key table)) k = failuresOf table k"
  by (simp add: isCircuitBreakerOpen_def failuresOf_def split: option.splits)

lemma isCircuitBreakerOpen_other:
  "k \<noteq> key \<Longrightarrow> snd (isCircuitBreakerOpen config now key table) k = table k"
  by (simp add: isCircuitBreakerOpen_def split: option.splits)

lemma executeWithRetry_closed:
  assumes "\<not> fst (isCircuitBreakerOpen config now (circuitBreakerKey command paramsJson) table)"
  shows "executeWithRetry engine config table command paramsJson now executor =
           retryLoop engine config command (circuitBreakerKey command paramsJson) executor 0 []
             (snd (isCircuitBreakerOpen config now (circuitBreakerKey command paramsJson) table))"
  using assms
  by (cases "isCircuitBreakerOpen config now (circuitBreakerKey command paramsJson) table")
     (simp add: executeWithRetry_def)

subsection \<open>The loop, one step at a time\<close>

lemma retryLoop_stop:
  assumes "outcome (executor n) = Inl msg"
    and "\<not> shouldRetry (extractErrorCode engine msg) n (getRetryStrategy (errorHandler config) command)"
  shows "retryLoop engine config command key executor n naps table =
           \<lparr> result = Inl msg, calls = Suc n, slept = naps,
             breakers = recordFailure config (finishedAt (executor n)) key table \<rparr>"
  using assms by (simp add: retryLoop.simps[of engine config command key executor n] doRetry_handleError)




subsection \<open>What the loop leaves in the table\<close>

lemma retryLoop_failure:
  "result (retryLoop engine config command key executor n naps table) = Inl e \<Longrightarrow>
   breakers (retryLoop engine config command key executor n naps table) =
     recordFailure config (finishedAt (executor (calls (retryLoop engine config command key executor n naps table) - 1))) key table
   \<and> n < calls (retryLoop engine config command key executor n naps table)"
proof (induction engine config command key executor n naps table rule: retryLoop.induct)
  case (1 engine config command key executor retryCount naps table)
  show ?case
  proof (cases "outcome (executor retryCount)")
    case (Inr v)
    with "1.prems" show ?thesis
      by (simp add: retryLoop.simps[of engine config command key executor retryCount])
  next
    case (Inl lastError)
    show ?thesis
    proof (cases "doRetry (handleError engine (errorHandler config) lastError command retryCount
                           (randomDraw (executor retryCount)))")
      case False
      with Inl show ?thesis
        by (simp add: retryLoop.simps[of engine config command key executor retryCount])
    next
      case True
      with Inl "1.prems" "1.IH"[OF Inl] show ?thesis 
        by (simp add: retryLoop.simps[of engine config command key executor retryCount])
    qed
  qed
qed

lemma retryLoop_success:
  "result (retryLoop engine config command key executor n naps table) = Inr v \<Longrightarrow>
   breakers (retryLoop engine config command key executor n naps table) = resetCircuitBreaker key table"
proof (induction engine config command key executor n naps table rule: retryLoop.induct)
  case (1 engine config command key executor retryCount naps table)
  show ?case
  proof (cases "outcome (executor retryCount)")
    case (Inr w)
    then show ?thesis by (simp add: retryLoop.simps[of engine config command key executor retryCount])
  next
    case (Inl lastError)
    show ?thesis
    proof (cases "doRetry (handleError engine (errorHandler config) lastError command retryCount
                           (randomDraw (executor retryCount)))")
      case False
      with Inl "1.prems" show ?thesis
        by (simp add: retryLoop.simps[of engine config command key executor retryCount])
    next
      case True
      with Inl "1.prems" "1.IH"[OF Inl] show ?thesis
        by (simp add: retryLoop.simps[of engine config command key executor retryCount])
    qed
  qed
qed

lemma retryLoop_calls_bound:
  "calls (retryLoop engine config command key executor n naps table)
     \<le> max n (maxRetries (getRetryStrategy (errorHandler config) command)) + 1"
proof (induction engine config command key executor n naps table rule: retryLoop.induct)
  case (1 engine config command key executor retryCount naps table)
  show ?case
  proof (cases "outcome (executor retryCount)")
    case (Inr w)
    then show ?thesis by (simp add: retryLoop.simps[of engine config command key executor retryCount])
  next
    case (Inl lastError)
    show ?thesis
    proof (cases "doRetry (handleError engine (errorHandler config) lastError command retryCount
                           (randomDraw (executor retryCount)))")
      case False
      with Inl show ?thesis
        by (simp add: retryLoop.simps[of engine config command key executor retryCount])
    next
      case True
      then have "retryCount < maxRetries (getRetryStrategy (errorHandler config) command)"
        by (simp add: doRetry_handleError shouldRetry_def split: if_splits)
      with True Inl "1.IH"[OF Inl] show ?thesis
        by (simp add: retryLoop.simps[of engine config command key executor retryCount] max_def split: if_splits)
    qed
  qed
qed

lemma retryLoop_all_fail:
  "\<forall>i. isl (outcome (executor i)) \<Longrightarrow>
   isl (result (retryLoop engine config command key executor n naps table))"
proof (induction engine config command key executor n naps table rule: retryLoop.induct)
  case (1 engine config command key executor retryCount naps table)
  from "1.prems" obtain lastError where Inl: "outcome (executor retryCount) = Inl lastError"
    by (metis isl_def)
  show ?case
  proof (cases "doRetry (handleError engine (errorHandler config) lastError command retryCount
                           (randomDraw (executor retryCount)))")
    case False
    with Inl show ?thesis
      by (simp add: retryLoop.simps[of engine config command key executor retryCount])
  next
    case True
    with Inl "1.prems" "1.IH"[OF Inl] show ?thesis
      by (simp add: retryLoop.simps[of engine config command key executor retryCount])
  qed
qed




subsection \<open>Claims about the circuit breaker and the retry loop\<close>

text \<open>
  C4.  If the circuit breaker for the signature of a command is open and its cooldown has
  not elapsed, \<open>executeWithRetry\<close> fails at once with the circuit-open error, never invokes
  the operation, and records no failure: the table of breakers, and so the entry of the
  signature (failure count, last-failure time, state), is the same after the call.
\<close>

theorem open_breaker_short_circuits:
  assumes "table (circuitBreakerKey command paramsJson) = Some st"
    and "state st = OPEN"
    and "\<not> now - lastFailureTime st > circuitBreakerTimeout config"
  shows "executeWithRetry engine config table command paramsJson now executor =
           \<lparr> result = Inl (''Circuit breaker is open for command: '' @ command),
             calls = 0, slept = [], breakers = table \<rparr>"
  using assms by (simp add: executeWithRetry_def isCircuitBreakerOpen_def)

theorem open_breaker_short_circuits_witness:
  "executeWithRetry referenceEngine createRetryManager
     [''click_{}'' \<mapsto> \<lparr> failures = 5, lastFailureTime = 1000, state = OPEN \<rparr>]
     ''click'' ''{}'' 2000
     (\<lambda>i. \<lparr> outcome = Inr ''done'' :: string + string, finishedAt = 2000, randomDraw = 0 \<rparr>)
   = \<lparr> result = Inl ''Circuit breaker is open for command: click'', calls = 0, slept = [],
       breakers = [''click_{}'' \<mapsto> \<lparr> failures = 5, lastFailureTime = 1000, state = OPEN \<rparr>] \<rparr>"
  using open_breaker_short_circuits[
      where table = "[''click_{}'' \<mapsto> \<lparr> failures = 5, lastFailureTime = 1000, state = OPEN \<rparr>]"
      and command = "''click''" and paramsJson = "''{}''"
      and st = "\<lparr> failures = 5, lastFailureTime = 1000, state = OPEN \<rparr>"
      and now = 2000 and config = createRetryManager and engine = referenceEngine
      and executor = "\<lambda>i. \<lparr> outcome = Inr ''done'' :: string + string, finishedAt = 2000, randomDraw = 0 \<rparr>"]
  by (simp add: circuitBreakerKey_def createRetryManager_def)

text \<open>
  C5.  With a threshold of 5, a breaker that starts without failures and \<open>CLOSED\<close> (a key
  that has no entry, or one that has just been reset) is \<open>OPEN\<close> after a run of consecutive
  recorded failures exactly when the run has 5 or more of them, so it opens at the 5th and
  is not open after 1 to 4; the count is the length of the run.  A recorded success
  (\<open>resetCircuitBreaker\<close>) sets the failure count of an entry to 0 and its state to
  \<open>CLOSED\<close>, whatever they were, and the count starts again from there.
\<close>

theorem breaker_opens_at_fifth_failure:
  assumes "circuitBreakerThreshold config = 5"
  shows "(failuresOf table key = 0 \<and> stateOf table key = CLOSED \<longrightarrow>
            failuresOf (recordFailures config stamps key table) key = length stamps \<and>
            (stateOf (recordFailures config stamps key table) key = OPEN \<longleftrightarrow> 5 \<le> length stamps))
       \<and> (\<forall>st. table key = Some st \<longrightarrow>
             resetCircuitBreaker key table key = Some (st\<lparr> failures := 0, state := CLOSED \<rparr>))
       \<and> failuresOf (resetCircuitBreaker key table) key = 0
       \<and> stateOf (resetCircuitBreaker key table) key = CLOSED
       \<and> (stateOf (recordFailures config stamps key (resetCircuitBreaker key table)) key = OPEN
             \<longleftrightarrow> 5 \<le> length stamps)"
  using assms recordFailures_count[of config stamps key table]
    recordFailures_count[of config stamps key "resetCircuitBreaker key table"]
    reset_view[of key table]
  by (simp add: resetCircuitBreaker_def)

theorem breaker_opens_at_fifth_failure_witness:
  "circuitBreakerThreshold createRetryManager = 5
   \<and> stateOf (recordFailures createRetryManager [10, 20, 30, 40] ''extract_{}'' Map.empty)
         ''extract_{}'' \<noteq> OPEN
   \<and> stateOf (recordFailures createRetryManager [10, 20, 30, 40, 50] ''extract_{}'' Map.empty)
         ''extract_{}'' = OPEN
   \<and> failuresOf (recordFailures createRetryManager [10, 20, 30, 40, 50] ''extract_{}'' Map.empty)
         ''extract_{}'' = 5"
  using breaker_opens_at_fifth_failure[
      where config = createRetryManager and table = Map.empty and key = "''extract_{}''"
        and stamps = "[10, 20, 30, 40]"]
    breaker_opens_at_fifth_failure[
      where config = createRetryManager and table = Map.empty and key = "''extract_{}''"
        and stamps = "[10, 20, 30, 40, 50]"]
  by (simp add: createRetryManager_def failuresOf_def stateOf_def)

text \<open>
  C6.  An invocation of \<open>executeWithRetry\<close> that the breaker lets through and whose attempts
  all fail ends in failure after at least one and at most \<open>maxRetries + 1\<close> attempts, and
  it calls \<open>recordFailure\<close> once, when the last attempt has failed: the failure count of the
  signature is one more than before, however many attempts were made, and no other entry
  of the table changes.
\<close>

theorem one_failure_per_invocation:
  assumes "\<not> fst (isCircuitBreakerOpen config now (circuitBreakerKey command paramsJson) table)"
    and "\<forall>i. isl (outcome (executor i))"
  shows "isl (result (executeWithRetry engine config table command paramsJson now executor))
       \<and> 1 \<le> calls (executeWithRetry engine config table command paramsJson now executor)
       \<and> calls (executeWithRetry engine config table command paramsJson now executor)
            \<le> maxRetries (getRetryStrategy (errorHandler config) command) + 1
       \<and> breakers (executeWithRetry engine config table command paramsJson now executor)
            = recordFailure config
                (finishedAt (executor
                   (calls (executeWithRetry engine config table command paramsJson now executor) - 1)))
                (circuitBreakerKey command paramsJson)
                (snd (isCircuitBreakerOpen config now (circuitBreakerKey command paramsJson) table))
       \<and> failuresOf (breakers (executeWithRetry engine config table command paramsJson now executor))
            (circuitBreakerKey command paramsJson)
          = failuresOf table (circuitBreakerKey command paramsJson) + 1
       \<and> (\<forall>k. k \<noteq> circuitBreakerKey command paramsJson \<longrightarrow>
             breakers (executeWithRetry engine config table command paramsJson now executor) k = table k)"
proof -
  let ?key = "circuitBreakerKey command paramsJson"
  let ?t1 = "snd (isCircuitBreakerOpen config now ?key table)"
  let ?ex = "retryLoop engine config command ?key executor 0 [] ?t1"
  have ex: "executeWithRetry engine config table command paramsJson now executor = ?ex"
    using assms(1) by (rule executeWithRetry_closed)
  from assms(2) have failed: "isl (result ?ex)" by (rule retryLoop_all_fail)
  then obtain e where "result ?ex = Inl e" by (metis isl_def)
  then have b: "breakers ?ex = recordFailure config (finishedAt (executor (calls ?ex - 1))) ?key ?t1"
    and c: "0 < calls ?ex"
    using retryLoop_failure by blast+
  have d: "calls ?ex \<le> maxRetries (getRetryStrategy (errorHandler config) command) + 1"
    using retryLoop_calls_bound[of engine config command ?key executor 0 "[]" ?t1] by simp
  have f: "failuresOf (breakers ?ex) ?key = failuresOf table ?key + 1"
    by (simp add: b failuresOf_recordFailure isCircuitBreakerOpen_failures)
  have o: "\<forall>k. k \<noteq> ?key \<longrightarrow> breakers ?ex k = table k"
    by (simp add: b recordFailure_other isCircuitBreakerOpen_other)
  from failed b c d f o show ?thesis
    unfolding ex by simp
qed

theorem one_failure_per_invocation_witness:
  "failuresOf (breakers (executeWithRetry referenceEngine createRetryManager Map.empty ''click'' ''{}'' 0
      (\<lambda>i. \<lparr> outcome = Inl ''Command timeout'' :: string + string,
              finishedAt = 30000 * int (Suc i), randomDraw = 0 \<rparr>)))
     ''click_{}'' = 1"
proof -
  let ?executor = "\<lambda>i. \<lparr> outcome = Inl ''Command timeout'' :: string + string,
                          finishedAt = 30000 * int (Suc i), randomDraw = 0 \<rparr>"
  have key: "circuitBreakerKey ''click'' ''{}'' = ''click_{}''"
    by (simp add: circuitBreakerKey_def)
  have closed: "\<not> fst (isCircuitBreakerOpen createRetryManager 0
                        (circuitBreakerKey ''click'' ''{}'') Map.empty)"
    by (simp add: isCircuitBreakerOpen_def)
  have failing: "\<forall>i. isl (outcome (?executor i))"
    by simp
  from one_failure_per_invocation[OF closed failing, where engine = referenceEngine]
  have "failuresOf (breakers (executeWithRetry referenceEngine createRetryManager Map.empty ''click'' ''{}'' 0
            ?executor)) (circuitBreakerKey ''click'' ''{}'')
          = failuresOf Map.empty (circuitBreakerKey ''click'' ''{}'') + 1"
    by (elim conjE)
  then show ?thesis
    by (simp add: key failuresOf_empty)
qed

subsection \<open>The retry delay\<close>

lemma round64_numerals:
  "round64 0 = 0" "round64 1 = 1" "round64 2 = 2" "round64 4 = 4"
  "round64 100 = 100" "round64 200 = 200" "round64 400 = 400"
  "round64 125 = 125" "round64 500 = 500"
  "round64 1000 = 1000" "round64 2000 = 2000" "round64 4000 = 4000"
  "round64 1100 = 1100" "round64 2200 = 2200" "round64 4400 = 4400"
  "round64 3000 = 3000" "round64 10000 = 10000"
  "round64 (3 / 2) = 3 / 2" "round64 (27 / 8) = 27 / 8"
  "round64 (375 / 2) = 375 / 2" "round64 (3375 / 2) = 3375 / 2"
  using round64_of_int[of 0] round64_of_int[of 1] round64_of_int[of 2] round64_of_int[of 4]
    round64_of_int[of 100] round64_of_int[of 200] round64_of_int[of 400]
    round64_of_int[of 125] round64_of_int[of 500]
    round64_of_int[of 1000] round64_of_int[of 2000] round64_of_int[of 4000]
    round64_of_int[of 1100] round64_of_int[of 2200] round64_of_int[of 4400]
    round64_of_int[of 3000] round64_of_int[of 10000]
    round64_dyadic[of 3 1] round64_dyadic[of 27 3] round64_dyadic[of 375 1]
    round64_dyadic[of 3375 1]
  by simp_all

lemma round64_tenth: "round64 (1 / 10) = 3602879701896397 / 36028797018963968"
  using round64_below_one[of 4 "1 / 10"] by (simp add: roundHalfEven_def)

lemma times64_tenth:
  "times64 (1 / 10) 1000 = 100" "times64 (1 / 10) 2000 = 200" "times64 (1 / 10) 4000 = 400"
  using round64_above_one[of 6 "3602879701896397 / 36028797018963968 * 1000"]
    round64_above_one[of 7 "3602879701896397 / 36028797018963968 * 2000"]
    round64_above_one[of 8 "3602879701896397 / 36028797018963968 * 4000"]
  by (simp_all add: times64_def round64_tenth round64_numerals roundHalfEven_def)

lemma times64_double: "round64 (times64 a b) = times64 a b"
  by (simp add: times64_def round64_idempotent)

lemma times64_nonneg: "0 \<le> a \<Longrightarrow> 0 \<le> b \<Longrightarrow> 0 \<le> times64 a b"
  by (simp add: times64_def round64_nonneg)

lemma times64_mono: "a \<le> b \<Longrightarrow> 0 \<le> c \<Longrightarrow> times64 a c \<le> times64 b c"
  unfolding times64_def
  by (intro round64_monotone mult_right_mono round64_nonneg)

lemma preJitterDelay_double:
  "round64 (preJitterDelay engine strategy n) = preJitterDelay engine strategy n"
  by (simp add: preJitterDelay_def min_def times64_double round64_idempotent)

lemma jitter_lower:
  assumes "0 \<le> r" and "0 \<le> d" and "round64 d = d"
  shows "d \<le> plus64 d (times64 (times64 r (1 / 10)) d)"
proof -
  have "0 \<le> times64 (times64 r (1 / 10)) d"
    using assms(1,2) by (intro times64_nonneg) simp_all
  then have "d \<le> d + times64 (times64 r (1 / 10)) d" by simp
  then have "round64 d \<le> round64 (d + times64 (times64 r (1 / 10)) d)"
    by (rule round64_monotone)
  then show ?thesis by (simp add: plus64_def assms(3) times64_double)
qed

lemma jitter_upper:
  assumes "0 \<le> r" and "r \<le> 1" and "0 \<le> d" and "round64 d = d"
  shows "plus64 d (times64 (times64 r (1 / 10)) d) \<le> plus64 d (times64 (1 / 10) d)"
proof -
  have c: "0 \<le> round64 (1 / 10)" by (simp add: round64_nonneg)
  have "round64 r \<le> 1" using round64_monotone[OF assms(2)] by (simp add: round64_numerals)
  then have "round64 r * round64 (1 / 10) \<le> 1 * round64 (1 / 10)"
    using c by (rule mult_right_mono)
  then have "round64 (round64 r * round64 (1 / 10)) \<le> round64 (round64 (1 / 10))"
    using round64_monotone by simp
  then have q: "times64 r (1 / 10) \<le> round64 (1 / 10)"
    by (simp add: times64_def round64_idempotent)
  have "round64 (times64 r (1 / 10)) * round64 d \<le> round64 (1 / 10) * round64 d"
    using q assms(3) by (simp add: times64_double assms(4) mult_right_mono)
  then have "times64 (times64 r (1 / 10)) d \<le> times64 (1 / 10) d"
    unfolding times64_def[of "times64 r (1 / 10)" d] times64_def[of "1 / 10" d]
    by (rule round64_monotone)
  then have "d + times64 (times64 r (1 / 10)) d \<le> d + times64 (1 / 10) d" by simp
  then have "round64 (d + times64 (times64 r (1 / 10)) d) \<le> round64 (d + times64 (1 / 10) d)"
    by (rule round64_monotone)
  then show ?thesis by (simp add: plus64_def assms(4) times64_double)
qed

lemma delay_standard:
  assumes "baseDelay strategy = 1000" "backoffMultiplier strategy = 2" "maxDelay strategy = 10000"
    and "\<forall>k \<le> 2. mathPow engine 2 k = 2 ^ k"
  shows "preJitterDelay engine strategy 0 = 1000" "preJitterDelay engine strategy 1 = 2000"
    "preJitterDelay engine strategy 2 = 4000"
proof -
  have "mathPow engine 2 0 = 1" "mathPow engine 2 (Suc 0) = 2" "mathPow engine 2 2 = 4"
    using assms(4) by simp_all
  then show "preJitterDelay engine strategy 0 = 1000" "preJitterDelay engine strategy 1 = 2000"
    "preJitterDelay engine strategy 2 = 4000"
    using assms(1-3) by (simp_all add: preJitterDelay_def times64_def round64_numerals)
qed

lemma referenceEngine_pow2: "\<forall>k \<le> 2. mathPow referenceEngine 2 k = 2 ^ k"
proof (intro allI impI)
  fix k :: nat
  assume "k \<le> 2"
  then have "k = 0 \<or> k = 1 \<or> k = 2" by auto
  then show "mathPow referenceEngine 2 k = 2 ^ k"
    by (auto simp: referenceEngine_def round64_numerals)
qed

text \<open>
  The rounding at work, default strategy and attempt index 0: for the draw that is the
  double nearest to 0.35 the jitter is 34.99999999999999 and the sum rounds to 1035; for
  the largest draw below 1 the jitter is 99.99999999999999 and the sum rounds to 1100.
\<close>

lemma delay_examples:
  "calculateRetryDelay referenceEngine standardRetryStrategy 0 (7 / 20) = 1035"
  "calculateRetryDelay referenceEngine standardRetryStrategy 0 (1 - 1 / 2 ^ 53) = 1100"
  "calculateRetryDelay referenceEngine standardRetryStrategy 1 (1 / 2) = 2100"
proof -
  have p: "preJitterDelay referenceEngine standardRetryStrategy 0 = 1000"
    "preJitterDelay referenceEngine standardRetryStrategy 1 = 2000"
    using delay_standard[OF _ _ _ referenceEngine_pow2, of standardRetryStrategy]
    by (simp_all add: standardRetryStrategy_def)
  have r1: "round64 (7 / 20) = 3152519739159347 / 9007199254740992"
    using round64_below_one[of 2 "7 / 20"] by (simp add: roundHalfEven_def)
  have mq1: "round64 (3152519739159347 / 9007199254740992 * (3602879701896397 / 36028797018963968)) = 5044031582654955 / 144115188075855872"
    using round64_below_one[of 5 "3152519739159347 / 9007199254740992 * (3602879701896397 / 36028797018963968)"] by (simp add: roundHalfEven_def)
  have q1: "times64 (7 / 20) (1 / 10) = 5044031582654955 / 144115188075855872"
    by (simp only: times64_def r1 round64_tenth mq1)
  have dq1: "round64 (5044031582654955 / 144115188075855872) = 5044031582654955 / 144115188075855872"
    using round64_dyadic[of 5044031582654955 57] by simp
  have mj1: "round64 (5044031582654955 / 144115188075855872 * 1000) = 4925812092436479 / 140737488355328"
    using round64_above_one[of 5 "5044031582654955 / 144115188075855872 * 1000"] by (simp add: roundHalfEven_def)
  have j1: "times64 (5044031582654955 / 144115188075855872) 1000 = 4925812092436479 / 140737488355328"
    by (simp only: times64_def dq1 round64_numerals mj1)
  have dj1: "round64 (4925812092436479 / 140737488355328) = 4925812092436479 / 140737488355328"
    using round64_dyadic[of 4925812092436479 47] by simp
  have ms1: "round64 (1000 + 4925812092436479 / 140737488355328) = 1035"
    using round64_above_one[of 10 "1000 + 4925812092436479 / 140737488355328"] by (simp add: roundHalfEven_def)
  have s1: "plus64 1000 (4925812092436479 / 140737488355328) = 1035"
    by (simp only: plus64_def dj1 round64_numerals ms1)
  show "calculateRetryDelay referenceEngine standardRetryStrategy 0 (7 / 20) = 1035"
    by (simp only: calculateRetryDelay_def Let_def p q1 j1 s1 floor_numeral)
  have r2: "round64 (1 - 1 / 2 ^ 53) = 9007199254740991 / 9007199254740992"
    using round64_dyadic[of 9007199254740991 53] by simp
  have mq2: "round64 (9007199254740991 / 9007199254740992 * (3602879701896397 / 36028797018963968)) = 7205759403792793 / 72057594037927936"
    using round64_below_one[of 4 "9007199254740991 / 9007199254740992 * (3602879701896397 / 36028797018963968)"] by (simp add: roundHalfEven_def)
  have q2: "times64 (1 - 1 / 2 ^ 53) (1 / 10) = 7205759403792793 / 72057594037927936"
    by (simp only: times64_def r2 round64_tenth mq2)
  have dq2: "round64 (7205759403792793 / 72057594037927936) = 7205759403792793 / 72057594037927936"
    using round64_dyadic[of 7205759403792793 56] by simp
  have mj2: "round64 (7205759403792793 / 72057594037927936 * 1000) = 7036874417766399 / 70368744177664"
    using round64_above_one[of 6 "7205759403792793 / 72057594037927936 * 1000"] by (simp add: roundHalfEven_def)
  have j2: "times64 (7205759403792793 / 72057594037927936) 1000 = 7036874417766399 / 70368744177664"
    by (simp only: times64_def dq2 round64_numerals mj2)
  have dj2: "round64 (7036874417766399 / 70368744177664) = 7036874417766399 / 70368744177664"
    using round64_dyadic[of 7036874417766399 46] by simp
  have ms2: "round64 (1000 + 7036874417766399 / 70368744177664) = 1100"
    using round64_above_one[of 10 "1000 + 7036874417766399 / 70368744177664"] by (simp add: roundHalfEven_def)
  have s2: "plus64 1000 (7036874417766399 / 70368744177664) = 1100"
    by (simp only: plus64_def dj2 round64_numerals ms2)
  show "calculateRetryDelay referenceEngine standardRetryStrategy 0 (1 - 1 / 2 ^ 53) = 1100"
    by (simp only: calculateRetryDelay_def Let_def p q2 j2 s2 floor_numeral)
  have r3: "round64 (1 / 2) = 1 / 2"
    using round64_dyadic[of 1 1] by simp
  have mq3: "round64 (1 / 2 * (3602879701896397 / 36028797018963968)) = 3602879701896397 / 72057594037927936"
    using round64_below_one[of 5 "1 / 2 * (3602879701896397 / 36028797018963968)"] by (simp add: roundHalfEven_def)
  have q3: "times64 (1 / 2) (1 / 10) = 3602879701896397 / 72057594037927936"
    by (simp only: times64_def r3 round64_tenth mq3)
  have dq3: "round64 (3602879701896397 / 72057594037927936) = 3602879701896397 / 72057594037927936"
    using round64_dyadic[of 3602879701896397 56] by simp
  have mj3: "round64 (3602879701896397 / 72057594037927936 * 2000) = 100"
    using round64_above_one[of 6 "3602879701896397 / 72057594037927936 * 2000"] by (simp add: roundHalfEven_def)
  have j3: "times64 (3602879701896397 / 72057594037927936) 2000 = 100"
    by (simp only: times64_def dq3 round64_numerals mj3)
  have dj3: "round64 (100) = 100"
    using round64_dyadic[of 100 0] by simp
  have ms3: "round64 (2000 + 100) = 2100"
    using round64_above_one[of 11 "2000 + 100"] by (simp add: roundHalfEven_def)
  have s3: "plus64 2000 (100) = 2100"
    by (simp only: plus64_def dj3 round64_numerals ms3)
  show "calculateRetryDelay referenceEngine standardRetryStrategy 1 (1 / 2) = 2100"
    by (simp only: calculateRetryDelay_def Let_def p q3 j3 s3 floor_numeral)
qed

text \<open>
  A power that is rounded: base 400, multiplier 1.15, cap 10000 and attempt index 2.  In
  exact arithmetic the capped delay is 529; in doubles 1.15 is slightly below 23/20, the
  product is 528.9999999999999 and 528 is returned for the draw 0.
\<close>

lemma delay_rounded_power:
  "preJitterDelay referenceEngine
     \<lparr> maxRetries = 3, baseDelay = 400, maxDelay = 10000, backoffMultiplier = 23 / 20,
       retryableErrors = defaultRetryableErrors \<rparr> 2 = 4653133208748031 / 8796093022208"
  "calculateRetryDelay referenceEngine
     \<lparr> maxRetries = 3, baseDelay = 400, maxDelay = 10000, backoffMultiplier = 23 / 20,
       retryableErrors = defaultRetryableErrors \<rparr> 2 0 = 528"
  "min (400 * (23 / 20) ^ 2) 10000 = (529 :: real)"
proof -
  have m: "round64 (23 / 20) = 2589569785738035 / 2251799813685248"
    using round64_above_one[of 0 "23 / 20"] by (simp add: roundHalfEven_def)
  have w: "mathPow referenceEngine (2589569785738035 / 2251799813685248) 2 = 744501313399685 / 562949953421312"
    using round64_above_one[of 0 "2589569785738035 / 2251799813685248 * (2589569785738035 / 2251799813685248)"]
    by (simp add: referenceEngine_def power2_eq_square roundHalfEven_def)
  have dw: "round64 (744501313399685 / 562949953421312) = 744501313399685 / 562949953421312"
    using round64_dyadic[of 744501313399685 49] by simp
  have f: "round64 400 = 400"
    using round64_of_int[of 400] by simp
  have b: "round64 (400 * (744501313399685 / 562949953421312)) = 4653133208748031 / 8796093022208"
    using round64_above_one[of 9 "400 * (744501313399685 / 562949953421312)"] by (simp add: roundHalfEven_def)
  have db: "round64 (4653133208748031 / 8796093022208) = 4653133208748031 / 8796093022208"
    using round64_dyadic[of 4653133208748031 43] by simp
  have t: "times64 400 (744501313399685 / 562949953421312) = 4653133208748031 / 8796093022208"
    by (simp only: times64_def f dw b)
  have "preJitterDelay referenceEngine
     \<lparr> maxRetries = 3, baseDelay = 400, maxDelay = 10000, backoffMultiplier = 23 / 20,
       retryableErrors = defaultRetryableErrors \<rparr> 2
     = min (times64 400 (mathPow referenceEngine (round64 (23 / 20)) 2)) (round64 10000)"
    by (simp add: preJitterDelay_def)
  also have "\<dots> = min (4653133208748031 / 8796093022208) 10000"
    by (simp only: m w t round64_numerals)
  finally show p: "preJitterDelay referenceEngine
     \<lparr> maxRetries = 3, baseDelay = 400, maxDelay = 10000, backoffMultiplier = 23 / 20,
       retryableErrors = defaultRetryableErrors \<rparr> 2 = 4653133208748031 / 8796093022208"
    by simp
  have z: "times64 (times64 0 (1 / 10)) (4653133208748031 / 8796093022208) = 0"
    by (simp add: times64_def round64_numerals)
  have s: "plus64 (4653133208748031 / 8796093022208) 0 = 4653133208748031 / 8796093022208"
    by (simp add: plus64_def round64_numerals db)
  show "calculateRetryDelay referenceEngine
     \<lparr> maxRetries = 3, baseDelay = 400, maxDelay = 10000, backoffMultiplier = 23 / 20,
       retryableErrors = defaultRetryableErrors \<rparr> 2 0 = 528"
    by (simp only: calculateRetryDelay_def Let_def p z s) simp
  show "min (400 * (23 / 20) ^ 2) 10000 = (529 :: real)"
    by (simp add: power2_eq_square)
qed

text \<open>
  C7, as stated, fails.  The delay returned is the floor of the sum of the capped
  exponential delay and the jitter, so where the capped delay is not a whole number the
  result can lie below it, and then it is not that delay plus any jitter of 0 to 10 per
  cent.  For the \<open>click\<close> strategy (base 500, multiplier 1.5, cap 3000), attempt index 3
  and the draw 0, the delay before jitter is 1687.5 and 1687 is returned; for a strategy
  with budget 3, base 125, multiplier 1.5 and cap 10000, attempt index 1 and the draw 0,
  the delay before jitter is 187.5 and 187 is returned.  No rounding takes place in
  either computation: every intermediate value is a double.
\<close>

theorem retry_delay_below_pre_jitter:
  "calculateRetryDelay referenceEngine clickRetryStrategy 3 0 = 1687
   \<and> min (baseDelay clickRetryStrategy * backoffMultiplier clickRetryStrategy ^ 3)
         (maxDelay clickRetryStrategy) = 3375 / 2
   \<and> preJitterDelay referenceEngine clickRetryStrategy 3 = 3375 / 2
   \<and> real_of_int (calculateRetryDelay referenceEngine clickRetryStrategy 3 0)
       < min (baseDelay clickRetryStrategy * backoffMultiplier clickRetryStrategy ^ 3)
           (maxDelay clickRetryStrategy)
   \<and> calculateRetryDelay referenceEngine
         \<lparr> maxRetries = 3, baseDelay = 125, maxDelay = 10000, backoffMultiplier = 3 / 2,
           retryableErrors = defaultRetryableErrors \<rparr> 1 0 = 187
   \<and> min (125 * (3 / 2) ^ 1) 10000 = (375 / 2 :: real)"
  by (simp add: calculateRetryDelay_def preJitterDelay_def clickRetryStrategy_def
      referenceEngine_def times64_def plus64_def round64_numerals power3_eq_cube)

text \<open>
  C7, amended.  For every engine, retry strategy, 0-based attempt index \<open>n\<close> and draw
  \<open>r\<close>, the delay returned is the floor of the double-precision sum of \<open>d\<close> and the
  jitter, where \<open>d\<close> is the smaller of the double-precision product of \<open>baseDelay\<close> and
  \<open>Math.pow(backoffMultiplier, n)\<close> and of \<open>maxDelay\<close>, and the jitter is the
  double-precision product \<open>r * 0.1 * d\<close>.  For \<open>r \<ge> 0\<close> and \<open>d \<ge> 0\<close> it is not below the
  floor of \<open>d\<close>, so it is more than \<open>d - 1\<close>, and it is never below \<open>d\<close> when \<open>d\<close> is a
  whole number; for \<open>r \<le> 1\<close> it is at most the floor of the double-precision value of
  \<open>d + 0.1 * d\<close>.  For a strategy with base delay 1000, multiplier 2 and cap 10000, on an
  engine whose \<open>Math.pow\<close> returns 1, 2, 4 for 2 to the 0, 1, 2, \<open>d\<close> is 1000, 2000, 4000
  at the indices 0, 1, 2, and for every draw the delay returned is not below \<open>d\<close> and at
  most 1100, 2200, 4400.
\<close>

theorem retry_delay_is_floor_of_jittered:
  "calculateRetryDelay engine strategy n r
     = \<lfloor>plus64 (preJitterDelay engine strategy n)
          (times64 (times64 r (1 / 10)) (preJitterDelay engine strategy n))\<rfloor>
   \<and> preJitterDelay engine strategy n
       = min (times64 (baseDelay strategy) (mathPow engine (round64 (backoffMultiplier strategy)) n))
           (round64 (maxDelay strategy))
   \<and> (0 \<le> r \<and> 0 \<le> preJitterDelay engine strategy n \<longrightarrow>
         \<lfloor>preJitterDelay engine strategy n\<rfloor> \<le> calculateRetryDelay engine strategy n r
         \<and> preJitterDelay engine strategy n - 1 < real_of_int (calculateRetryDelay engine strategy n r))
   \<and> (0 \<le> r \<and> 0 \<le> preJitterDelay engine strategy n \<and> preJitterDelay engine strategy n \<in> \<int> \<longrightarrow>
         preJitterDelay engine strategy n \<le> real_of_int (calculateRetryDelay engine strategy n r))
   \<and> (0 \<le> r \<and> r \<le> 1 \<and> 0 \<le> preJitterDelay engine strategy n \<longrightarrow>
         calculateRetryDelay engine strategy n r
           \<le> \<lfloor>plus64 (preJitterDelay engine strategy n)
                (times64 (1 / 10) (preJitterDelay engine strategy n))\<rfloor>)
   \<and> (baseDelay strategy = 1000 \<and> backoffMultiplier strategy = 2 \<and> maxDelay strategy = 10000
        \<and> (\<forall>k \<le> 2. mathPow engine 2 k = 2 ^ k) \<longrightarrow>
         preJitterDelay engine strategy 0 = 1000 \<and> preJitterDelay engine strategy 1 = 2000
         \<and> preJitterDelay engine strategy 2 = 4000
         \<and> (0 \<le> r \<and> r \<le> 1 \<longrightarrow>
              1000 \<le> calculateRetryDelay engine strategy 0 r
              \<and> calculateRetryDelay engine strategy 0 r \<le> 1100
              \<and> 2000 \<le> calculateRetryDelay engine strategy 1 r
              \<and> calculateRetryDelay engine strategy 1 r \<le> 2200
              \<and> 4000 \<le> calculateRetryDelay engine strategy 2 r
              \<and> calculateRetryDelay engine strategy 2 r \<le> 4400))"
  (is "?formula \<and> ?capped \<and> (?A1 \<longrightarrow> ?C1) \<and> (?A2 \<longrightarrow> ?C2) \<and> (?A3 \<longrightarrow> ?C3) \<and> (?A4 \<longrightarrow> ?C4)")
proof -
  have formula: ?formula
    by (simp add: calculateRetryDelay_def Let_def)
  have capped: ?capped
    by (simp add: preJitterDelay_def)
  have lower: "\<And>m. 0 \<le> r \<Longrightarrow> 0 \<le> preJitterDelay engine strategy m \<Longrightarrow>
      \<lfloor>preJitterDelay engine strategy m\<rfloor> \<le> calculateRetryDelay engine strategy m r"
    unfolding calculateRetryDelay_def Let_def
    by (intro floor_mono jitter_lower preJitterDelay_double)
  have upper: "\<And>m. 0 \<le> r \<Longrightarrow> r \<le> 1 \<Longrightarrow> 0 \<le> preJitterDelay engine strategy m \<Longrightarrow>
      calculateRetryDelay engine strategy m r
        \<le> \<lfloor>plus64 (preJitterDelay engine strategy m)
             (times64 (1 / 10) (preJitterDelay engine strategy m))\<rfloor>"
    unfolding calculateRetryDelay_def Let_def
    by (intro floor_mono jitter_upper preJitterDelay_double)
  have floor_part: "?A1 \<longrightarrow> ?C1"
  proof
    assume h: ?A1
    then have l: "\<lfloor>preJitterDelay engine strategy n\<rfloor> \<le> calculateRetryDelay engine strategy n r"
      using lower by simp
    have "preJitterDelay engine strategy n - 1 < real_of_int \<lfloor>preJitterDelay engine strategy n\<rfloor>"
      by linarith
    also have "\<dots> \<le> real_of_int (calculateRetryDelay engine strategy n r)"
      using l by (simp only: of_int_le_iff)
    finally show ?C1 using l by simp
  qed
  have whole: "?A2 \<longrightarrow> ?C2"
  proof
    assume h: ?A2
    then obtain k :: int where k: "preJitterDelay engine strategy n = real_of_int k"
      by (auto elim: Ints_cases)
    from h have "\<lfloor>preJitterDelay engine strategy n\<rfloor> \<le> calculateRetryDelay engine strategy n r"
      using lower by simp
    then have "k \<le> calculateRetryDelay engine strategy n r" by (simp add: k)
    then show ?C2 by (simp add: k)
  qed
  have ceiling_part: "?A3 \<longrightarrow> ?C3"
    using upper by simp
  have standard: "?A4 \<longrightarrow> ?C4"
  proof
    assume h: ?A4
    then have p: "preJitterDelay engine strategy 0 = 1000" "preJitterDelay engine strategy 1 = 2000"
      "preJitterDelay engine strategy 2 = 4000"
      using delay_standard[of strategy engine] by simp_all
    have u: "plus64 1000 (times64 (1 / 10) 1000) = 1100"
      "plus64 2000 (times64 (1 / 10) 2000) = 2200"
      "plus64 4000 (times64 (1 / 10) 4000) = 4400"
      by (simp_all add: plus64_def times64_tenth round64_numerals)
    have "0 \<le> r \<and> r \<le> 1 \<longrightarrow>
              1000 \<le> calculateRetryDelay engine strategy 0 r
              \<and> calculateRetryDelay engine strategy 0 r \<le> 1100
              \<and> 2000 \<le> calculateRetryDelay engine strategy 1 r
              \<and> calculateRetryDelay engine strategy 1 r \<le> 2200
              \<and> 4000 \<le> calculateRetryDelay engine strategy 2 r
              \<and> calculateRetryDelay engine strategy 2 r \<le> 4400"
      using lower[of 0] lower[of 1] lower[of 2] upper[of 0] upper[of 1] upper[of 2]
      by (simp add: p u del: One_nat_def)
    with p show ?C4 by simp
  qed
  show ?thesis
    by (intro conjI formula capped floor_part whole ceiling_part standard)
qed

theorem retry_delay_is_floor_of_jittered_witness:
  "preJitterDelay referenceEngine standardRetryStrategy 1 = 2000
   \<and> 2000 \<le> calculateRetryDelay referenceEngine standardRetryStrategy 1 (1 / 2)
   \<and> calculateRetryDelay referenceEngine standardRetryStrategy 1 (1 / 2) \<le> 2200"
proof -
  have h: "baseDelay standardRetryStrategy = 1000 \<and> backoffMultiplier standardRetryStrategy = 2
        \<and> maxDelay standardRetryStrategy = 10000
        \<and> (\<forall>k \<le> 2. mathPow referenceEngine 2 k = 2 ^ k)"
    using referenceEngine_pow2 by (simp add: standardRetryStrategy_def)
  from retry_delay_is_floor_of_jittered[where r = "1 / 2" and strategy = standardRetryStrategy
      and n = 1 and engine = referenceEngine]
  have "baseDelay standardRetryStrategy = 1000 \<and> backoffMultiplier standardRetryStrategy = 2
        \<and> maxDelay standardRetryStrategy = 10000
        \<and> (\<forall>k \<le> 2. mathPow referenceEngine 2 k = 2 ^ k) \<longrightarrow>
         preJitterDelay referenceEngine standardRetryStrategy 0 = 1000
         \<and> preJitterDelay referenceEngine standardRetryStrategy 1 = 2000
         \<and> preJitterDelay referenceEngine standardRetryStrategy 2 = 4000
         \<and> (0 \<le> (1 / 2 :: real) \<and> (1 / 2 :: real) \<le> 1 \<longrightarrow>
              1000 \<le> calculateRetryDelay referenceEngine standardRetryStrategy 0 (1 / 2)
              \<and> calculateRetryDelay referenceEngine standardRetryStrategy 0 (1 / 2) \<le> 1100
              \<and> 2000 \<le> calculateRetryDelay referenceEngine standardRetryStrategy 1 (1 / 2)
              \<and> calculateRetryDelay referenceEngine standardRetryStrategy 1 (1 / 2) \<le> 2200
              \<and> 4000 \<le> calculateRetryDelay referenceEngine standardRetryStrategy 2 (1 / 2)
              \<and> calculateRetryDelay referenceEngine standardRetryStrategy 2 (1 / 2) \<le> 4400)"
    by (elim conjE)
  with h show ?thesis by simp
qed

subsection \<open>Which errors are retried\<close>







text \<open>
  The categories are those of the code that \<open>extractErrorCode\<close> assigns.  It never assigns
  \<open>TAB_NOT_FOUND\<close>, since a message with \<open>tab not found\<close> has \<open>not found\<close> in it and is given
  \<open>SELECTOR_NOT_FOUND\<close> before, nor \<open>INVALID_PARAMS\<close>: the errors of category \<open>PERMISSION\<close>
  are those with the code \<open>PERMISSION_DENIED\<close>, the errors of category \<open>VALIDATION\<close> those
  with the code \<open>INVALID_URL\<close>.
\<close>

lemma str_includes_append: "prefix pat ys \<Longrightarrow> str_includes (xs @ ys) pat"
proof (induction xs)
  case Nil
  then show ?case by (cases ys) simp_all
next
  case (Cons x xs)
  then show ?case by simp
qed

lemma str_includes_tab_not_found:
  "str_includes body ''tab not found'' \<Longrightarrow> str_includes body ''not found''"
proof (induction body)
  case Nil
  then show ?case by simp
next
  case (Cons c cs)
  show ?case
  proof (cases "prefix ''tab not found'' (c # cs)")
    case True
    then obtain rest where "c # cs = ''tab '' @ (''not found'' @ rest)"
      by (auto simp: prefix_def)
    moreover have "str_includes (''tab '' @ (''not found'' @ rest)) ''not found''"
      by (rule str_includes_append) simp
    ultimately show ?thesis by simp
  next
    case False
    from Cons.prems
    have "prefix ''tab not found'' (c # cs) \<or> str_includes cs ''tab not found''"
      by (simp only: str_includes.simps)
    with False have "str_includes cs ''tab not found''" by (simp only: simp_thms)
    then have "str_includes cs ''not found''" by (rule Cons.IH)
    then show ?thesis by simp
  qed
qed

lemma extractErrorCode_range:
  "extractErrorCode engine msg \<noteq> TAB_NOT_FOUND \<and> extractErrorCode engine msg \<noteq> INVALID_PARAMS"
  "categorizeError (extractErrorCode engine msg) = PERMISSION
     \<longleftrightarrow> extractErrorCode engine msg = PERMISSION_DENIED"
  "categorizeError (extractErrorCode engine msg) = VALIDATION
     \<longleftrightarrow> extractErrorCode engine msg = INVALID_URL"
  using str_includes_tab_not_found[of "toLowerCase engine msg"]
  by (auto simp: extractErrorCode_def Let_def)



section \<open>Properties of the server\<close>

subsection \<open>Pending commands\<close>

lemma cleanup_fold_clients:
  "\<exists>cs. foldl (\<lambda>s client. if P client then s\<lparr> clients := removeClient (clientId client) (clients s) \<rparr> else s) srv xs
        = srv\<lparr> clients := cs \<rparr>"
proof (induction xs arbitrary: srv)
  case Nil
  have "srv = srv\<lparr> clients := clients srv \<rparr>" by simp
  then show ?case by (metis foldl_Nil)
next
  case (Cons x xs)
  show ?case
  proof (cases "P x")
    case True
    from Cons[of "srv\<lparr> clients := removeClient (clientId x) (clients srv) \<rparr>"] True
    show ?thesis by auto
  next
    case False
    with Cons[of srv] show ?thesis by simp
  qed
qed

lemma cleanupStaleConnections_clients_only:
  "\<exists>cs. cleanupStaleConnections now srv = srv\<lparr> clients := cs \<rparr>"
  unfolding cleanupStaleConnections_def Let_def
  by (rule cleanup_fold_clients)

lemma cleanup_fields:
  "pendingCommands (cleanupStaleConnections now srv) = pendingCommands srv"
  "timers (cleanupStaleConnections now srv) = timers srv"
  "settlements (cleanupStaleConnections now srv) = settlements srv"
  "nextTimer (cleanupStaleConnections now srv) = nextTimer srv"
  using cleanupStaleConnections_clients_only[of now srv] by auto

lemma disconnect_fields:
  "pendingCommands (handleDisconnection cid srv) = pendingCommands srv"
  "timers (handleDisconnection cid srv) = timers srv"
  "settlements (handleDisconnection cid srv) = settlements srv"
  "nextTimer (handleDisconnection cid srv) = nextTimer srv"
  by (simp_all add: handleDisconnection_def)

lemma inv_clients_only:
  "pendingCommands s' = pendingCommands s \<Longrightarrow> timers s' = timers s \<Longrightarrow>
   settlements s' = settlements s \<Longrightarrow> nextTimer s' = nextTimer s \<Longrightarrow>
   pendingInv s \<Longrightarrow> pendingInv s'"
  by (simp add: pendingInv_def)

lemma inv_register: "pendingInv srv \<Longrightarrow> pendingInv (registerPending cmdId srv)"
  unfolding pendingInv_def registerPending_def Let_def
  by (auto simp: less_Suc_eq split: if_splits)

lemma inv_timeout: "pendingInv srv \<Longrightarrow> pendingInv (timeoutFires h srv)"
  unfolding pendingInv_def timeoutFires_def
  by (auto split: option.splits if_splits)

lemma inv_response: "pendingInv srv \<Longrightarrow> pendingInv (handleResponse cid response now srv)"
  unfolding pendingInv_def handleResponse_def Let_def
  by (auto split: option.splits if_splits) (metis option.inject)+

lemma auth_fields:
  "pendingCommands (handleAuth cid now srv) = pendingCommands srv"
  "timers (handleAuth cid now srv) = timers srv"
  "settlements (handleAuth cid now srv) = settlements srv"
  "nextTimer (handleAuth cid now srv) = nextTimer srv"
  by (simp_all add: handleAuth_def)

lemma heartbeat_fields:
  "pendingCommands (handleHeartbeat cid now srv) = pendingCommands srv"
  "timers (handleHeartbeat cid now srv) = timers srv"
  "settlements (handleHeartbeat cid now srv) = settlements srv"
  "nextTimer (handleHeartbeat cid now srv) = nextTimer srv"
  by (simp_all add: handleHeartbeat_def)

lemma checkRateLimit_fields:
  "pendingCommands (snd (checkRateLimit cid now srv)) = pendingCommands srv"
  "timers (snd (checkRateLimit cid now srv)) = timers srv"
  "settlements (snd (checkRateLimit cid now srv)) = settlements srv"
  "nextTimer (snd (checkRateLimit cid now srv)) = nextTimer srv"
  by (simp_all add: checkRateLimit_def Let_def split: option.splits)

lemma command_fields:
  "pendingCommands (handleCommand cid message now freshId srv) = pendingCommands srv"
  "timers (handleCommand cid message now freshId srv) = timers srv"
  "settlements (handleCommand cid message now freshId srv) = settlements srv"
  "nextTimer (handleCommand cid message now freshId srv) = nextTimer srv"
proof -
  obtain allowed srv1 where c: "checkRateLimit cid now srv = (allowed, srv1)"
    by (cases "checkRateLimit cid now srv")
  with checkRateLimit_fields[of cid now srv]
  have f: "pendingCommands srv1 = pendingCommands srv" "timers srv1 = timers srv"
    "settlements srv1 = settlements srv" "nextTimer srv1 = nextTimer srv"
    by simp_all
  show "pendingCommands (handleCommand cid message now freshId srv) = pendingCommands srv"
    "timers (handleCommand cid message now freshId srv) = timers srv"
    "settlements (handleCommand cid message now freshId srv) = settlements srv"
    "nextTimer (handleCommand cid message now freshId srv) = nextTimer srv"
    by (simp_all add: handleCommand_def sendError_def Let_def c f)
qed

lemma send_fields:
  "pendingCommands (sendMessageToClient cid message srv) = pendingCommands srv"
  "timers (sendMessageToClient cid message srv) = timers srv"
  "settlements (sendMessageToClient cid message srv) = settlements srv"
  "nextTimer (sendMessageToClient cid message srv) = nextTimer srv"
  by (simp_all add: sendMessageToClient_def split: option.splits)

lemma inv_dispatch:
  "pendingInv srv \<Longrightarrow> pendingInv (dispatchCommand target cmdId command paramsJson srv)"
  unfolding dispatchCommand_def
  by (rule inv_clients_only[OF send_fields]) (rule inv_register)

lemma inv_step: "pendingInv srv \<Longrightarrow> pendingInv (step srv e)"
  by (cases e)
     (simp_all add: inv_dispatch inv_timeout inv_response
        inv_clients_only[OF auth_fields] inv_clients_only[OF command_fields]
        inv_clients_only[OF heartbeat_fields]
        inv_clients_only[OF disconnect_fields] inv_clients_only[OF cleanup_fields])

lemma inv_initial: "pendingInv initialServer"
  by (simp add: pendingInv_def initialServer_def)

lemma inv_run: "pendingInv srv \<Longrightarrow> pendingInv (runEvents events srv)"
  unfolding runEvents_def
  by (induction events arbitrary: srv) (simp_all add: inv_step)

lemma response_settles:
  assumes "pendingCommands srv (responseId response) = Some h"
  shows "pendingCommands (handleResponse cid response now srv) (responseId response) = None"
    and "timers (handleResponse cid response now srv) h = None"
    and "settlements (handleResponse cid response now srv) =
           settlements srv @
             [(h, if success response then Resolved (responseData response)
                  else Rejected (orElse (errorMessage response) ''Command failed''))]"
  using assms by (simp_all add: handleResponse_def Let_def)

lemma response_without_entry:
  assumes "pendingCommands srv (responseId response) = None"
  shows "pendingCommands (handleResponse cid response now srv) = pendingCommands srv"
    and "timers (handleResponse cid response now srv) = timers srv"
    and "settlements (handleResponse cid response now srv) = settlements srv"
  using assms by (simp_all add: handleResponse_def Let_def)

lemma timeout_settles:
  assumes "timers srv h = Some cmdId"
  shows "pendingCommands (timeoutFires h srv) cmdId = None"
    and "timers (timeoutFires h srv) h = None"
    and "settlements (timeoutFires h srv) = settlements srv @ [(h, Rejected ''Command timeout'')]"
  using assms by (simp_all add: timeoutFires_def)

lemma timeout_disarmed:
  assumes "timers srv h = None"
  shows "timeoutFires h srv = srv"
  using assms by (simp add: timeoutFires_def)

lemma settle_once_local:
  assumes inv: "pendingInv srv"
    and p: "pendingCommands srv cmdId = Some h"
    and r1: "responseId response = cmdId"
    and r2: "responseId later = cmdId"
  shows "timers srv h = Some cmdId
       \<and> pendingCommands (handleResponse cid response now srv) cmdId = None
       \<and> timers (handleResponse cid response now srv) h = None
       \<and> settlements (handleResponse cid response now srv)
           = settlements srv @
               [(h, if success response then Resolved (responseData response)
                    else Rejected (orElse (errorMessage response) ''Command failed''))]
       \<and> pendingCommands (handleResponse cid' later now' (handleResponse cid response now srv))
           = pendingCommands (handleResponse cid response now srv)
       \<and> timers (handleResponse cid' later now' (handleResponse cid response now srv))
           = timers (handleResponse cid response now srv)
       \<and> settlements (handleResponse cid' later now' (handleResponse cid response now srv))
           = settlements (handleResponse cid response now srv)
       \<and> timeoutFires h (handleResponse cid response now srv)
           = handleResponse cid response now srv
       \<and> pendingCommands (timeoutFires h srv) cmdId = None
       \<and> timers (timeoutFires h srv) h = None
       \<and> settlements (timeoutFires h srv)
           = settlements srv @ [(h, Rejected ''Command timeout'')]
       \<and> pendingCommands (handleResponse cid' later now' (timeoutFires h srv))
           = pendingCommands (timeoutFires h srv)
       \<and> timers (handleResponse cid' later now' (timeoutFires h srv))
           = timers (timeoutFires h srv)
       \<and> settlements (handleResponse cid' later now' (timeoutFires h srv))
           = settlements (timeoutFires h srv)
       \<and> timeoutFires h (timeoutFires h srv) = timeoutFires h srv"
proof -
  from p r1 have p': "pendingCommands srv (responseId response) = Some h" by simp
  from inv p have t: "timers srv h = Some cmdId" by (simp add: pendingInv_def)
  note r = response_settles[OF p', of cid now]
  from r(1) r1 r2 have n1: "pendingCommands (handleResponse cid response now srv) (responseId later) = None"
    by simp
  note t2 = timeout_settles[OF t]
  from t2(1) r2 have n2: "pendingCommands (timeoutFires h srv) (responseId later) = None" by simp
  note a1 = response_without_entry[OF n1, of cid' now']
  note a2 = response_without_entry[OF n2, of cid' now']
  note b1 = timeout_disarmed[OF r(2)]
  note b2 = timeout_disarmed[OF t2(2)]
  from r(1) r1 have r1': "pendingCommands (handleResponse cid response now srv) cmdId = None" by simp
  show ?thesis
    by (intro conjI t r1' r(2) r(3) a1 b1 t2 a2 b2)
qed

text \<open>
  C1.  In every state the server reaches from its initial state, by any interleaving of
  frames handled, disconnections, sweeps, commands dispatched and timers firing, no
  promise of a pending command has been settled more than once.  For a command id that
  is pending there, the timer of its entry is armed, and whichever of the reply and the
  timeout comes first removes the entry, disarms the timer and settles the promise once
  (the reply resolves or rejects, the timeout rejects with \<open>Command timeout\<close>); after
  that a reply for the same id leaves the pending commands, the timers and the
  settlements as they are, and the timer of the entry does not run again.  The
  handlers are total functions: nothing is thrown.
\<close>

theorem pending_settled_at_most_once:
  "distinct (map fst (settlements (runEvents events initialServer)))
   \<and> (pendingCommands (runEvents events initialServer) cmdId = Some h
        \<and> responseId response = cmdId \<and> responseId later = cmdId \<longrightarrow>
       timers (runEvents events initialServer) h = Some cmdId
       \<and> pendingCommands (handleResponse cid response now (runEvents events initialServer)) cmdId = None
       \<and> timers (handleResponse cid response now (runEvents events initialServer)) h = None
       \<and> settlements (handleResponse cid response now (runEvents events initialServer))
           = settlements (runEvents events initialServer) @
               [(h, if success response then Resolved (responseData response)
                    else Rejected (orElse (errorMessage response) ''Command failed''))]
       \<and> pendingCommands (handleResponse cid' later now'
             (handleResponse cid response now (runEvents events initialServer)))
           = pendingCommands (handleResponse cid response now (runEvents events initialServer))
       \<and> timers (handleResponse cid' later now'
             (handleResponse cid response now (runEvents events initialServer)))
           = timers (handleResponse cid response now (runEvents events initialServer))
       \<and> settlements (handleResponse cid' later now'
             (handleResponse cid response now (runEvents events initialServer)))
           = settlements (handleResponse cid response now (runEvents events initialServer))
       \<and> timeoutFires h (handleResponse cid response now (runEvents events initialServer))
           = handleResponse cid response now (runEvents events initialServer)
       \<and> pendingCommands (timeoutFires h (runEvents events initialServer)) cmdId = None
       \<and> timers (timeoutFires h (runEvents events initialServer)) h = None
       \<and> settlements (timeoutFires h (runEvents events initialServer))
           = settlements (runEvents events initialServer) @ [(h, Rejected ''Command timeout'')]
       \<and> pendingCommands (handleResponse cid' later now'
             (timeoutFires h (runEvents events initialServer)))
           = pendingCommands (timeoutFires h (runEvents events initialServer))
       \<and> timers (handleResponse cid' later now' (timeoutFires h (runEvents events initialServer)))
           = timers (timeoutFires h (runEvents events initialServer))
       \<and> settlements (handleResponse cid' later now'
             (timeoutFires h (runEvents events initialServer)))
           = settlements (timeoutFires h (runEvents events initialServer))
       \<and> timeoutFires h (timeoutFires h (runEvents events initialServer))
           = timeoutFires h (runEvents events initialServer))"
proof (rule conjI, goal_cases)
  case 1
  show ?case
    using inv_run[OF inv_initial, of events] by (simp add: pendingInv_def)
next
  case 2
  show ?case
    by (intro impI, elim conjE, rule settle_once_local[OF inv_run[OF inv_initial]], assumption+)
qed

theorem pending_settled_at_most_once_witness:
  "settlements
     (handleResponse ''client_1''
        \<lparr> responseId = ''cmd_1'', success = False, responseData = JNull,
          errorMessage = Some ''late'' \<rparr> 20
        (handleResponse ''client_1''
           \<lparr> responseId = ''cmd_1'', success = True, responseData = JString ''ok'',
             errorMessage = None \<rparr> 10
           (runEvents [Authenticates ''client_1'' 0, Dispatches ''client_1'' ''cmd_1'' ''click'' ''{}''] initialServer)))
     = [(0, Resolved (JString ''ok''))]
   \<and> settlements
     (handleResponse ''client_1''
        \<lparr> responseId = ''cmd_1'', success = False, responseData = JNull,
          errorMessage = Some ''late'' \<rparr> 20
        (timeoutFires 0 (runEvents [Authenticates ''client_1'' 0, Dispatches ''client_1'' ''cmd_1'' ''click'' ''{}''] initialServer)))
     = [(0, Rejected ''Command timeout'')]"
  using pending_settled_at_most_once[where events = "[Authenticates ''client_1'' 0, Dispatches ''client_1'' ''cmd_1'' ''click'' ''{}'']" and cmdId = "''cmd_1''" and h = 0
      and response = "\<lparr> responseId = ''cmd_1'', success = True, responseData = JString ''ok'',
             errorMessage = None \<rparr>"
      and later = "\<lparr> responseId = ''cmd_1'', success = False, responseData = JNull,
          errorMessage = Some ''late'' \<rparr>"
      and cid = "''client_1''" and cid' = "''client_1''" and now = 10 and now' = 20]
  by (simp add: runEvents_def dispatchCommand_def sendMessageToClient_def registerPending_def
      handleAuth_def initialServer_def addClient_def getClient_def getAllClients_def Let_def)

lemma twoPending_fields:
  "pendingCommands twoPending = [''cmd_1'' \<mapsto> 0, ''cmd_2'' \<mapsto> 1]"
  "timers twoPending = [0 \<mapsto> ''cmd_1'', 1 \<mapsto> ''cmd_2'']"
  "settlements twoPending = []"
  "map fst (clients twoPending) = [''client_1'']"
  by (simp_all add: twoPending_def dispatchCommand_def sendMessageToClient_def registerPending_def
      handleAuth_def initialServer_def addClient_def getClient_def Let_def)

text \<open>
  C2, as stated, fails.  A disconnection removes the client and leaves every pending
  command as it is: with two commands pending for the client that disconnects (or is
  swept as stale), both entries are still there afterwards and nothing has been rejected;
  they are rejected when their timers fire, with the timeout error.
\<close>

theorem disconnect_rejects_nothing:
  "getClient ''client_1'' (clients twoPending) \<noteq> None
   \<and> getClient ''client_1'' (clients (handleDisconnection ''client_1'' twoPending)) = None
   \<and> pendingCommands (handleDisconnection ''client_1'' twoPending) ''cmd_1'' = Some 0
   \<and> pendingCommands (handleDisconnection ''client_1'' twoPending) ''cmd_2'' = Some 1
   \<and> settlements (handleDisconnection ''client_1'' twoPending) = []
   \<and> settlements (timeoutFires 1 (timeoutFires 0 (handleDisconnection ''client_1'' twoPending)))
       = [(0, Rejected ''Command timeout''), (1, Rejected ''Command timeout'')]
   \<and> getClient ''client_1'' (clients (cleanupStaleConnections 200000 twoPending)) = None
   \<and> pendingCommands (cleanupStaleConnections 200000 twoPending) ''cmd_1'' = Some 0
   \<and> pendingCommands (cleanupStaleConnections 200000 twoPending) ''cmd_2'' = Some 1
   \<and> settlements (cleanupStaleConnections 200000 twoPending) = []"
  by (simp add: twoPending_def dispatchCommand_def sendMessageToClient_def registerPending_def
      handleAuth_def initialServer_def addClient_def getClient_def getAllClients_def Let_def
      handleDisconnection_def removeClient_def timeoutFires_def cleanupStaleConnections_def)

text \<open>
  C2, amended.  When a session disconnects (the transport closes, or the heartbeat sweep
  removes it), the client is removed from the registry and nothing else changes: the
  pending commands, their timers and the settlements are the same before and after, so
  no entry is rejected at that moment.  An entry whose timer is armed is rejected when
  that timer fires, with the error \<open>Command timeout\<close>.
\<close>

theorem disconnect_leaves_pending_commands:
  "clients (handleDisconnection cid srv) = removeClient cid (clients srv)
   \<and> getClient cid (clients (handleDisconnection cid srv)) = None
   \<and> pendingCommands (handleDisconnection cid srv) = pendingCommands srv
   \<and> timers (handleDisconnection cid srv) = timers srv
   \<and> settlements (handleDisconnection cid srv) = settlements srv
   \<and> pendingCommands (cleanupStaleConnections now srv) = pendingCommands srv
   \<and> timers (cleanupStaleConnections now srv) = timers srv
   \<and> settlements (cleanupStaleConnections now srv) = settlements srv
   \<and> (timers srv h = Some cmdId \<longrightarrow>
        settlements (timeoutFires h (handleDisconnection cid srv))
          = settlements srv @ [(h, Rejected ''Command timeout'')]
        \<and> settlements (timeoutFires h (cleanupStaleConnections now srv))
          = settlements srv @ [(h, Rejected ''Command timeout'')])"
  by (simp add: disconnect_fields cleanup_fields timeoutFires_def)
     (simp add: handleDisconnection_def removeClient_def getClient_def AList.delete_conv')

theorem disconnect_leaves_pending_commands_witness:
  "settlements (timeoutFires 0 (handleDisconnection ''client_1'' twoPending))
     = [(0, Rejected ''Command timeout'')]
   \<and> pendingCommands (handleDisconnection ''client_1'' twoPending) = pendingCommands twoPending"
  using disconnect_leaves_pending_commands[where srv = twoPending and h = 0
      and cmdId = "''cmd_1''" and cid = "''client_1''"]
  by (simp add: twoPending_fields)

subsection \<open>Validation of commands\<close>

lemma unknown_kind_message:
  "extractErrorCode referenceEngine ''Unknown command type: go_back'' = UNKNOWN"
  by (simp add: extractErrorCode_def referenceEngine_def asciiLowerCase_def lowerChar_def)

text \<open>
  C3 (a command whose kind is not one of the known kinds, or whose parameters are not a
  well-formed object, is rejected before the retry path is entered), at an input where
  the code does otherwise.  The \<open>tools/call\<close> path hands the command to
  \<open>executeWithRetry\<close> without calling \<open>validateCommand\<close>.  The tool \<open>browser_go_back\<close>,
  which \<open>tools/list\<close> offers, gives the command kind \<open>go_back\<close>; it is not among the
  known kinds (\<open>goBack\<close> is) and \<open>validateCommand\<close> refuses it.  With one client
  connected, which answers as the extension does an unknown kind, the operation is
  invoked once inside the retry loop, and the failure is recorded in the circuit
  breaker of the signature.  The same kind in a \<open>command\<close> frame is refused by
  \<open>handleCommand\<close> with \<open>INVALID_PARAMS\<close> and is not enqueued.
\<close>

theorem unknown_tool_enters_retry_path:
  "replaceFirst ''browser_'' [] ''browser_go_back'' = ''go_back''
   \<and> ''go_back'' \<notin> set validTypes
   \<and> \<not> validateCommand
         \<lparr> commandId = ''cmd_1'', commandType = ''go_back'', params = JObject [], timestamp = 0,
           timeoutMs = 30000, commandRetryCount = 0, commandMaxRetries = 3,
           priority = ''normal'', commandClientId = ''mcp-client'' \<rparr>
   \<and> handleMCPProtocol_toolsCall referenceEngine createRetryManager Map.empty
         (handleAuth ''client_1'' 0 initialServer) ''browser_go_back'' ''{}'' 0
         (\<lambda>i. \<lparr> outcome = Inl ''Unknown command type: go_back'' :: string + string,
                 finishedAt = 10, randomDraw = 0 \<rparr>)
       = \<lparr> reply = Inl (- 32603, ''Command failed: Unknown command type: go_back''),
           execution =
             Some \<lparr> result = Inl ''Unknown command type: go_back'', calls = 1, slept = [],
                    breakers = [''go_back_{}'' \<mapsto>
                                  \<lparr> failures = 1, lastFailureTime = 10, state = CLOSED \<rparr>] \<rparr> \<rparr>
   \<and> sent (handleCommand ''client_1''
              \<lparr> frameId = Some ''cmd_1'', frameCommand = Some ''go_back'', frameType = ''command'',
                frameParams = JObject [], frameTimeout = None, frameMaxRetries = None,
                framePriority = None \<rparr> 0 ''cmd_2'' (handleAuth ''client_1'' 0 initialServer))
       = [(Socket ''client_1'', AuthSuccess ''client_1''),
          (Socket ''client_1'', ErrorMessage ''INVALID_PARAMS'' ''Invalid command parameters'')]
   \<and> enqueued (handleCommand ''client_1''
              \<lparr> frameId = Some ''cmd_1'', frameCommand = Some ''go_back'', frameType = ''command'',
                frameParams = JObject [], frameTimeout = None, frameMaxRetries = None,
                framePriority = None \<rparr> 0 ''cmd_2'' (handleAuth ''client_1'' 0 initialServer))
       = []"
proof (intro conjI)
  let ?executor = "\<lambda>i::nat. \<lparr> outcome = Inl ''Unknown command type: go_back'' :: string + string,
                          finishedAt = 10, randomDraw = 0 \<rparr>"
  show "replaceFirst ''browser_'' [] ''browser_go_back'' = ''go_back''"
    by simp
  show "''go_back'' \<notin> set validTypes"
    by (simp add: validTypes_def)
  show "\<not> validateCommand
         \<lparr> commandId = ''cmd_1'', commandType = ''go_back'', params = JObject [], timestamp = 0,
           timeoutMs = 30000, commandRetryCount = 0, commandMaxRetries = 3,
           priority = ''normal'', commandClientId = ''mcp-client'' \<rparr>"
    by (simp add: validateCommand_def validTypes_def)
  have closed: "\<not> fst (isCircuitBreakerOpen createRetryManager 0
                        (circuitBreakerKey ''go_back'' ''{}'') Map.empty)"
    by (simp add: isCircuitBreakerOpen_def)
  have stop: "\<not> shouldRetry (extractErrorCode referenceEngine ''Unknown command type: go_back'') 0
                  (getRetryStrategy (errorHandler createRetryManager) ''go_back'')"
    by (simp add: unknown_kind_message shouldRetry_def getRetryStrategy_def createRetryManager_def
        standardRetryStrategy_def defaultRetryableErrors_def)
  have first: "outcome (?executor 0) = Inl ''Unknown command type: go_back''"
    by simp
  have run: "executeWithRetry referenceEngine createRetryManager Map.empty ''go_back'' ''{}'' 0 ?executor
       = \<lparr> result = Inl ''Unknown command type: go_back'', calls = 1, slept = [],
           breakers = [''go_back_{}'' \<mapsto>
                         \<lparr> failures = 1, lastFailureTime = 10, state = CLOSED \<rparr>] \<rparr>"
    unfolding executeWithRetry_closed[OF closed]
      retryLoop_stop[where executor = ?executor and n = 0, OF first stop]
    by (simp add: isCircuitBreakerOpen_def recordFailure_def circuitBreakerKey_def
        createRetryManager_def Let_def)
  show "handleMCPProtocol_toolsCall referenceEngine createRetryManager Map.empty
         (handleAuth ''client_1'' 0 initialServer) ''browser_go_back'' ''{}'' 0 ?executor
       = \<lparr> reply = Inl (- 32603, ''Command failed: Unknown command type: go_back''),
           execution =
             Some \<lparr> result = Inl ''Unknown command type: go_back'', calls = 1, slept = [],
                    breakers = [''go_back_{}'' \<mapsto>
                                  \<lparr> failures = 1, lastFailureTime = 10, state = CLOSED \<rparr>] \<rparr> \<rparr>"
    by (simp add: handleMCPProtocol_toolsCall_def Let_def run handleAuth_def initialServer_def
        addClient_def getAllClients_def)
  show "sent (handleCommand ''client_1''
              \<lparr> frameId = Some ''cmd_1'', frameCommand = Some ''go_back'', frameType = ''command'',
                frameParams = JObject [], frameTimeout = None, frameMaxRetries = None,
                framePriority = None \<rparr> 0 ''cmd_2'' (handleAuth ''client_1'' 0 initialServer))
       = [(Socket ''client_1'', AuthSuccess ''client_1''),
          (Socket ''client_1'', ErrorMessage ''INVALID_PARAMS'' ''Invalid command parameters'')]"
    by (simp add: handleCommand_def Let_def orElse_def validateCommand_def validTypes_def
        sendError_def handleAuth_def initialServer_def)
  show "enqueued (handleCommand ''client_1''
              \<lparr> frameId = Some ''cmd_1'', frameCommand = Some ''go_back'', frameType = ''command'',
                frameParams = JObject [], frameTimeout = None, frameMaxRetries = None,
                framePriority = None \<rparr> 0 ''cmd_2'' (handleAuth ''client_1'' 0 initialServer))
       = []"
    by (simp add: handleCommand_def Let_def orElse_def validateCommand_def validTypes_def
        sendError_def handleAuth_def initialServer_def)
qed

theorem unknown_tool_enters_retry_path_witness:
  "map_option calls
     (execution
        (handleMCPProtocol_toolsCall referenceEngine createRetryManager Map.empty
           (handleAuth ''client_1'' 0 initialServer) ''browser_go_back'' ''{}'' 0
           (\<lambda>i. \<lparr> outcome = Inl ''Unknown command type: go_back'' :: string + string,
                   finishedAt = 10, randomDraw = 0 \<rparr>)))
     = Some 1"
  using unknown_tool_enters_retry_path by simp

subsection \<open>Rate limiting\<close>

lemma requestsOf_registered:
  "getClient cid (clients srv) = Some client \<Longrightarrow> requestsOf cid srv = requests (rateLimit client)"
  by (simp add: requestsOf_def)

lemma checkRateLimit_allowed:
  assumes "getClient cid (clients srv) = Some client"
    and "\<not> now - windowStart (rateLimit client) > 60000"
    and "requests (rateLimit client) < 100"
  shows "checkRateLimit cid now srv =
           (True, srv\<lparr> clients := AList.update cid
              (client\<lparr> rateLimit := (rateLimit client)\<lparr> requests := requests (rateLimit client) + 1 \<rparr> \<rparr>)
              (clients srv) \<rparr>)"
  using assms by (simp add: checkRateLimit_def Let_def)

lemma checkRateLimit_expired:
  assumes "getClient cid (clients srv) = Some client"
    and "now - windowStart (rateLimit client) > 60000"
  shows "checkRateLimit cid now srv =
           (True, srv\<lparr> clients := AList.update cid
              (client\<lparr> rateLimit := \<lparr> requests = 1, windowStart = now \<rparr> \<rparr>) (clients srv) \<rparr>)"
  using assms by (simp add: checkRateLimit_def Let_def)

lemma checkRateLimit_denied:
  assumes "getClient cid (clients srv) = Some client"
    and "\<not> now - windowStart (rateLimit client) > 60000"
    and "requests (rateLimit client) \<ge> 100"
  shows "checkRateLimit cid now srv = (False, srv)"
proof -
  from assms(1) have "AList.update cid client (clients srv) = clients srv"
    by (simp add: getClient_def AList.update_triv)
  with assms show ?thesis by (simp add: checkRateLimit_def Let_def)
qed

lemma denied_mutates_nothing:
  assumes "\<not> fst (checkRateLimit cid now srv)"
  shows "snd (checkRateLimit cid now srv) = srv"
proof (cases "getClient cid (clients srv)")
  case None
  then show ?thesis by (simp add: checkRateLimit_def)
next
  case (Some client)
  show ?thesis
  proof (cases "now - windowStart (rateLimit client) > 60000")
    case True
    with Some assms show ?thesis by (simp add: checkRateLimit_expired)
  next
    case False
    show ?thesis
    proof (cases "requests (rateLimit client) < 100")
      case True
      with Some False assms show ?thesis by (simp add: checkRateLimit_allowed)
    next
      case False2: False
      with Some False show ?thesis by (simp add: checkRateLimit_denied)
    qed
  qed
qed

lemma getClient_update:
  "getClient cid (AList.update cid c cs) = Some c"
  by (simp add: getClient_def AList.update_conv')

lemma rateChecks_within_window:
  assumes "getClient cid (clients srv) = Some client"
    and "\<forall>t \<in> set stamps. t - windowStart (rateLimit client) \<le> 60000"
    and "requests (rateLimit client) + length stamps \<le> 100"
  shows "fst (rateChecks cid stamps srv) = replicate (length stamps) True
       \<and> (\<exists>client'. getClient cid (clients (snd (rateChecks cid stamps srv))) = Some client'
            \<and> requests (rateLimit client') = requests (rateLimit client) + length stamps
            \<and> windowStart (rateLimit client') = windowStart (rateLimit client))"
  using assms
proof (induction stamps arbitrary: srv client)
  case Nil
  then show ?case by simp
next
  case (Cons now stamps)
  let ?client1 = "client\<lparr> rateLimit := (rateLimit client)\<lparr> requests := requests (rateLimit client) + 1 \<rparr> \<rparr>"
  let ?srv1 = "srv\<lparr> clients := AList.update cid ?client1 (clients srv) \<rparr>"
  from Cons.prems have c: "checkRateLimit cid now srv = (True, ?srv1)"
    by (intro checkRateLimit_allowed) auto
  have g: "getClient cid (clients ?srv1) = Some ?client1"
    by (simp add: getClient_update)
  from Cons.prems have "\<forall>t \<in> set stamps. t - windowStart (rateLimit ?client1) \<le> 60000"
    and "requests (rateLimit ?client1) + length stamps \<le> 100"
    by auto
  from Cons.IH[OF g this] c show ?case
    by (auto split: prod.splits)
qed

text \<open>
  C8.  With the limits of the source (100 requests in a window of 60000 ms), for a client
  at the start of a window: 100 checks at clock readings inside the window all succeed,
  and after the first \<open>k\<close> of them the counter is \<open>k\<close>; a further check inside the
  window returns false and leaves the server as it is; a check that returns false never
  changes anything; and a check at a reading more than 60000 ms after the window start
  succeeds and leaves the counter at 1, the window having been reset.
\<close>

theorem rate_limit_window:
  assumes "getClient cid (clients srv) = Some client"
    and "requests (rateLimit client) = 0"
    and "length stamps = 100"
    and "\<forall>t \<in> set stamps. t - windowStart (rateLimit client) \<le> 60000"
    and "extra - windowStart (rateLimit client) \<le> 60000"
    and "later - windowStart (rateLimit client) > 60000"
  shows "fst (rateChecks cid stamps srv) = replicate 100 True
       \<and> (\<forall>k \<le> 100. requestsOf cid (snd (rateChecks cid (take k stamps) srv)) = k)
       \<and> checkRateLimit cid extra (snd (rateChecks cid stamps srv))
           = (False, snd (rateChecks cid stamps srv))
       \<and> (\<forall>now' srv'. \<not> fst (checkRateLimit cid now' srv') \<longrightarrow>
             snd (checkRateLimit cid now' srv') = srv')
       \<and> fst (checkRateLimit cid later (snd (rateChecks cid stamps srv)))
       \<and> requestsOf cid (snd (checkRateLimit cid later (snd (rateChecks cid stamps srv)))) = 1"
proof -
  let ?w = "windowStart (rateLimit client)"
  let ?full = "snd (rateChecks cid stamps srv)"
  from rateChecks_within_window[OF assms(1) assms(4)] assms(2,3)
  obtain client' where all: "fst (rateChecks cid stamps srv) = replicate 100 True"
    and c': "getClient cid (clients ?full) = Some client'"
      "requests (rateLimit client') = 100" "windowStart (rateLimit client') = ?w"
    by auto
  have counts: "\<forall>k \<le> 100. requestsOf cid (snd (rateChecks cid (take k stamps) srv)) = k"
  proof (intro allI impI)
    fix k :: nat assume k: "k \<le> 100"
    have "\<forall>t \<in> set (take k stamps). t - ?w \<le> 60000"
      using assms(4) by (meson in_set_takeD)
    from rateChecks_within_window[OF assms(1) this] assms(2,3) k
    show "requestsOf cid (snd (rateChecks cid (take k stamps) srv)) = k"
      by (auto simp: requestsOf_def min_def)
  qed
  have denied: "checkRateLimit cid extra ?full = (False, ?full)"
    using c' assms(5) by (intro checkRateLimit_denied[OF c'(1)]) auto
  have reset: "checkRateLimit cid later ?full =
      (True, ?full\<lparr> clients := AList.update cid
              (client'\<lparr> rateLimit := \<lparr> requests = 1, windowStart = later \<rparr> \<rparr>) (clients ?full) \<rparr>)"
    using c' assms(6) by (intro checkRateLimit_expired[OF c'(1)]) auto
  have after: "fst (checkRateLimit cid later ?full)"
    "requestsOf cid (snd (checkRateLimit cid later ?full)) = 1"
    by (simp_all add: reset requestsOf_def getClient_update)
  from all counts denied after denied_mutates_nothing show ?thesis
    by blast
qed

theorem rate_limit_window_witness:
  "fst (rateChecks ''client_1'' (replicate 100 1000) (handleAuth ''client_1'' 0 initialServer))
     = replicate 100 True
   \<and> checkRateLimit ''client_1'' 2000
        (snd (rateChecks ''client_1'' (replicate 100 1000) (handleAuth ''client_1'' 0 initialServer)))
      = (False,
         snd (rateChecks ''client_1'' (replicate 100 1000) (handleAuth ''client_1'' 0 initialServer)))
   \<and> fst (checkRateLimit ''client_1'' 70000
        (snd (rateChecks ''client_1'' (replicate 100 1000) (handleAuth ''client_1'' 0 initialServer))))"
  using rate_limit_window[where cid = "''client_1''" and srv = "handleAuth ''client_1'' 0 initialServer"
      and stamps = "replicate 100 1000" and extra = 2000 and later = 70000
      and client = "\<lparr> clientId = ''client_1'', connected = True, connectedAt = 0, lastHeartbeat = 0,
              lastActivity = 0, activeCommands = [], commandHistory = [],
              apiKey = ''no-auth-required'',
              rateLimit = \<lparr> requests = 0, windowStart = 0 \<rparr> \<rparr>"]
  by (simp add: handleAuth_def initialServer_def addClient_def getClient_def)

text \<open>
  C10.  A rate-limit check for a client id that is not in the registry returns false and
  leaves the server as it is; a \<open>command\<close> frame from such a client changes no client and
  is not enqueued.
\<close>

theorem unregistered_client_is_denied:
  assumes "getClient cid (clients srv) = None"
  shows "checkRateLimit cid now srv = (False, srv)
       \<and> clients (handleCommand cid message now freshId srv) = clients srv
       \<and> enqueued (handleCommand cid message now freshId srv) = enqueued srv"
  using assms by (simp add: checkRateLimit_def handleCommand_def sendError_def Let_def)

theorem unregistered_client_is_denied_witness:
  "checkRateLimit ''ghost'' 5 initialServer = (False, initialServer)"
  using unregistered_client_is_denied[where cid = "''ghost''" and srv = initialServer and now = 5]
  by (simp add: getClient_def initialServer_def)

end
